theory Spec2Isabelle
  imports Complex_Main "HOL-Library.Log_Nat" "HOL-Library.Sublist"
begin

section \<open>JavaScript numbers\<close>

text \<open>
  A JavaScript number is an IEEE-754 double. A finite double is modelled by the rational
  it denotes, and every arithmetic operator rounds its exact result to the nearest double,
  ties to the even significand (53 significant bits). The exponent is not bounded here:
  the update procedure only computes with values between \<open>1 / 70\<close> and \<open>2 ^ 54\<close>, far
  from overflow and from the subnormal range.
\<close>

definition pow2 :: "int \<Rightarrow> rat" where
  "pow2 e = (if 0 \<le> e then 2 ^ nat e else 1 / 2 ^ nat (- e))"

text \<open>The binary exponent of a positive rational: \<open>pow2 (ilog2 x) \<le> x < pow2 (ilog2 x + 1)\<close>.\<close>

definition ilog2 :: "rat \<Rightarrow> int" where
  "ilog2 x = (if 1 \<le> x then bitlen \<lfloor>x\<rfloor> - 1 else - bitlen (\<lceil>1 / x\<rceil> - 1))"

definition round_half_even :: "rat \<Rightarrow> int" where
  "round_half_even y =
     (let f = \<lfloor>y\<rfloor>; r = y - of_int f
      in if r < 1 / 2 then f else if 1 / 2 < r then f + 1 else if even f then f else f + 1)"

text \<open>Rounding to the nearest double: the significand is scaled into \<open>[2^52, 2^53]\<close>.\<close>

definition fl :: "rat \<Rightarrow> rat" where
  "fl x = (if x = 0 then 0
           else let e = ilog2 \<bar>x\<bar> - 52
                in sgn x * of_int (round_half_even (\<bar>x\<bar> / pow2 e)) * pow2 e)"

definition js_add :: "rat \<Rightarrow> rat \<Rightarrow> rat" where
  "js_add x y = fl (x + y)"

definition js_mul :: "rat \<Rightarrow> rat \<Rightarrow> rat" where
  "js_mul x y = fl (x * y)"

text \<open>The divisor of the one division in the source is the literal 70.\<close>

definition js_div :: "rat \<Rightarrow> rat \<Rightarrow> rat" where
  "js_div x y = fl (x / y)"

definition Math_floor :: "rat \<Rightarrow> rat" where
  "Math_floor x = of_int \<lfloor>x\<rfloor>"

definition Math_min :: "rat \<Rightarrow> rat \<Rightarrow> rat" where
  "Math_min x y = min x y"

section \<open>JavaScript values\<close>

text \<open>
  \<open>JSON.parse\<close> returns any JSON value, and the cast \<open>as Partial<UpdateStatus>\<close> checks
  nothing at run time, so the status record is modelled as the object it is when the
  program runs: a finite map from property names to values.
\<close>

datatype jsnum = Fin rat | PosInf | NegInf | NaN

datatype jsval =
    JUndefined
  | JNull
  | JBool bool
  | JNum jsnum
  | JStr string
  | JArr "jsval list"
  | JObj "string \<Rightarrow> jsval option"

type_synonym obj = "string \<Rightarrow> jsval option"

text \<open>What \<open>!v\<close> negates.\<close>

fun truthy :: "jsval \<Rightarrow> bool" where
  "truthy JUndefined = False"
| "truthy JNull = False"
| "truthy (JBool b) = b"
| "truthy (JNum (Fin x)) = (x \<noteq> 0)"
| "truthy (JNum NaN) = False"
| "truthy (JNum PosInf) = True"
| "truthy (JNum NegInf) = True"
| "truthy (JStr s) = (s \<noteq> [])"
| "truthy (JArr xs) = True"
| "truthy (JObj m) = True"

text \<open>The property name of an array index.\<close>

fun dec :: "nat \<Rightarrow> string" where
  "dec n = (if n < 10 then [''0123456789'' ! n]
            else dec (n div 10) @ [''0123456789'' ! (n mod 10)])"

declare dec.simps [simp del]

text \<open>
  The own enumerable properties that the spread \<open>{...v}\<close> copies: those of an object,
  the elements of an array and the characters of a string under their indices, nothing
  for another primitive.
\<close>

fun own_props :: "jsval \<Rightarrow> obj" where
  "own_props (JObj m) = m"
| "own_props (JArr xs) = map_of (zip (map dec [0..<length xs]) xs)"
| "own_props (JStr s) = map_of (zip (map dec [0..<length s]) (map (\<lambda>c. JStr [c]) s))"
| "own_props JUndefined = Map.empty"
| "own_props JNull = Map.empty"
| "own_props (JBool b) = Map.empty"
| "own_props (JNum x) = Map.empty"

text \<open>Reading a property: \<open>undefined\<close> when the object has none of that name.\<close>

definition get_prop :: "obj \<Rightarrow> string \<Rightarrow> jsval" where
  "get_prop ob k = (case ob k of None \<Rightarrow> JUndefined | Some v \<Rightarrow> v)"

section \<open>Strings\<close>

definition startsWith :: "string \<Rightarrow> string \<Rightarrow> bool" where
  "startsWith s p = prefix p s"

text \<open>\<open>s.replace(pat, rep)\<close> with a string pattern replaces its first occurrence.\<close>

fun replace :: "string \<Rightarrow> string \<Rightarrow> string \<Rightarrow> string" where
  "replace [] pat rep = (if pat = [] then rep else [])"
| "replace (c # cs) pat rep =
     (if prefix pat (c # cs) then rep @ drop (length pat) (c # cs)
      else c # replace cs pat rep)"

text \<open>\<open>s.split(sep)\<close> with a one-character separator: the empty string splits into one
  empty piece, and a trailing separator leaves an empty last piece.\<close>

fun split_str :: "string \<Rightarrow> char \<Rightarrow> string list" where
  "split_str [] sep = [[]]"
| "split_str (c # cs) sep =
     (if c = sep then [] # split_str cs sep
      else (case split_str cs sep of
              [] \<Rightarrow> [[c]]
            | l # ls \<Rightarrow> (c # l) # ls))"

definition newline :: char where
  "newline = CHR 0x0A"

section \<open>The status registers\<close>

datatype SystemStatus = Running | Updating | ShuttingDown | Restarting | Migrating

datatype error = Error string | TRPCError string string

text \<open>
  Every write to a register and every call to a collaborator is appended to a trace, so
  that the order of the steps can be stated. Of the logger's lines the trace keeps the
  verbose line of a dot, as the progress value it prints, and the error line of the
  failure handler, without its message.
\<close>

datatype event =
    SystemStatusSet SystemStatus
  | UpdateStatusSet jsval
  | UpdateStatusReset
  | LogVerboseProgress rat
  | LogError
  | StopServices
  | Reboot

record module_state =
  systemStatus :: SystemStatus
  updateStatus :: obj
  trace :: "event list"

definition setSystemStatus :: "SystemStatus \<Rightarrow> module_state \<Rightarrow> module_state" where
  "setSystemStatus status st =
     st\<lparr>systemStatus := status, trace := trace st @ [SystemStatusSet status]\<rparr>"

definition idle_status :: obj where
  "idle_status = [''running'' \<mapsto> JBool False, ''progress'' \<mapsto> JNum (Fin 0),
                  ''description'' \<mapsto> JStr [], ''error'' \<mapsto> JBool False]"

definition resetUpdateStatus :: "module_state \<Rightarrow> module_state" where
  "resetUpdateStatus st =
     st\<lparr>updateStatus := idle_status, trace := trace st @ [UpdateStatusReset]\<rparr>"

text \<open>\<open>updateStatus = {...updateStatus, ...properties}\<close>\<close>

definition setUpdateStatus :: "jsval \<Rightarrow> module_state \<Rightarrow> module_state" where
  "setUpdateStatus properties st =
     st\<lparr>updateStatus := own_props (JObj (updateStatus st)) ++ own_props properties,
        trace := trace st @ [UpdateStatusSet properties]\<rparr>"

text \<open>The module's state when it is loaded.\<close>

definition initial_state :: module_state where
  "initial_state = \<lparr>systemStatus = Running, updateStatus = idle_status, trace = []\<rparr>"

section \<open>The update script's output\<close>

definition marker :: string where
  "marker = ''umbrel-update: ''"

text \<open>
  One turn of the loop over the lines of a chunk. The first component of the pair is the
  counter \<open>menderInstallDots\<close> of the attempt. \<open>parse\<close> is \<open>JSON.parse\<close>: \<open>Inl\<close> is the
  exception it throws, which the handler catches and drops.
\<close>

definition handle_line ::
  "(string \<Rightarrow> error + jsval) \<Rightarrow> string \<Rightarrow> rat \<times> module_state \<Rightarrow> rat \<times> module_state" where
  "handle_line parse line ds =
     (let menderInstallDots = fst ds;
          st = snd ds;
          st1 = (if startsWith line marker
                 then (case parse (replace line marker []) of
                         Inl err \<Rightarrow> st
                       | Inr status \<Rightarrow> setUpdateStatus status st)
                 else st)
      in if line = ''.''
         then let dots = js_add menderInstallDots 1;
                  progress = Math_min 95 (js_add (Math_floor (js_mul (js_div dots 70) 90)) 5)
              in (dots,
                  setUpdateStatus (JObj [''progress'' \<mapsto> JNum (Fin progress)])
                    (st1\<lparr>trace := trace st1 @ [LogVerboseProgress progress]\<rparr>))
         else (menderInstallDots, st1))"

text \<open>The argument is the text of the chunk, \<open>chunk.toString()\<close>.\<close>

definition handleUpdateScriptOutput ::
  "(string \<Rightarrow> error + jsval) \<Rightarrow> string \<Rightarrow> rat \<times> module_state \<Rightarrow> rat \<times> module_state" where
  "handleUpdateScriptOutput parse text ds = fold (handle_line parse) (split_str text newline) ds"

text \<open>The \<open>data\<close> events of the two streams, in the order they arrive.\<close>

definition process_output ::
  "(string \<Rightarrow> error + jsval) \<Rightarrow> string list \<Rightarrow> rat \<times> module_state \<Rightarrow> rat \<times> module_state" where
  "process_output parse chunks ds = fold (handleUpdateScriptOutput parse) chunks ds"

text \<open>The expression that a dot line evaluates, as a function of the counter.\<close>

definition progress_of_dots :: "rat \<Rightarrow> rat" where
  "progress_of_dots dots = Math_min 95 (js_add (Math_floor (js_mul (js_div dots 70) 90)) 5)"

text \<open>The formula as the specification writes it, in exact arithmetic.\<close>

definition spec_progress :: "nat \<Rightarrow> int" where
  "spec_progress dots = min 95 (\<lfloor>of_nat dots / 70 * (90::rat)\<rfloor> + 5)"

text \<open>The progress values that the dot lines of a trace computed, oldest first.\<close>

fun logged_progress :: "event list \<Rightarrow> rat list" where
  "logged_progress [] = []"
| "logged_progress (LogVerboseProgress p # es) = p # logged_progress es"
| "logged_progress (e # es) = logged_progress es"

text \<open>The values that a trace writes to \<open>progress\<close>, oldest first: those of the status
  writes that name the field, and the 0 of a reset.\<close>

fun progress_writes :: "event list \<Rightarrow> jsval list" where
  "progress_writes [] = []"
| "progress_writes (UpdateStatusSet v # es) =
     (case own_props v ''progress'' of
        None \<Rightarrow> progress_writes es
      | Some x \<Rightarrow> x # progress_writes es)"
| "progress_writes (UpdateStatusReset # es) = JNum (Fin 0) # progress_writes es"
| "progress_writes (e # es) = progress_writes es"

section \<open>The update mutation\<close>

record release_info =
  version :: string
  releaseNotes :: string
  updateScript :: "string option"

text \<open>
  What the world answers during one attempt: the release endpoint, the download of the
  script, the chunks the script writes and how the awaited process settles, and the two
  collaborators of the success path. \<open>Inl\<close> is a rejected promise.
\<close>

record update_env =
  latest_release :: "error + release_info"
  fetch_text :: "string \<Rightarrow> error + string"
  run_script :: "string \<Rightarrow> string list \<times> (error + unit)"
  stop_result :: "error + unit"
  reboot_result :: "error + unit"

definition getLatestRelease :: "update_env \<Rightarrow> error + release_info" where
  "getLatestRelease env = latest_release env"

text \<open>\<open>!updateScript\<close>: the field is absent or the empty string.\<close>

definition no_script :: "string option \<Rightarrow> bool" where
  "no_script u = (case u of None \<Rightarrow> True | Some url \<Rightarrow> url = [])"

definition start_status :: jsval where
  "start_status = JObj [''running'' \<mapsto> JBool True, ''progress'' \<mapsto> JNum (Fin 5),
                        ''description'' \<mapsto> JStr ''Updating...'', ''error'' \<mapsto> JBool False]"

text \<open>The two statements before the \<open>try\<close>.\<close>

definition update_start :: "module_state \<Rightarrow> module_state" where
  "update_start st = setUpdateStatus start_status (setSystemStatus Updating st)"

text \<open>The body of the \<open>try\<close>: its outcome and the state it leaves.\<close>

definition update_try ::
  "(string \<Rightarrow> error + jsval) \<Rightarrow> update_env \<Rightarrow> module_state \<Rightarrow> (error + unit) \<times> module_state" where
  "update_try parse env st =
     (case getLatestRelease env of
        Inl e \<Rightarrow> (Inl e, st)
      | Inr release \<Rightarrow>
          (case (if no_script (updateScript release) then None else updateScript release) of
             None \<Rightarrow>
               (Inl (Error ''No update script found''),
                setUpdateStatus (JObj [''error'' \<mapsto> JStr ''No update script found'']) st)
           | Some url \<Rightarrow>
               (case fetch_text env url of
                  Inl e \<Rightarrow> (Inl e, st)
                | Inr updateSCriptContents \<Rightarrow>
                    (snd (run_script env updateSCriptContents),
                     snd (process_output parse (fst (run_script env updateSCriptContents)) (0, st))))))"

text \<open>The \<open>catch\<close> block.\<close>

definition update_catch :: "module_state \<Rightarrow> (error + bool) \<times> module_state" where
  "update_catch st =
     (let st1 = (if \<not> truthy (get_prop (updateStatus st) ''error'')
                 then setUpdateStatus (JObj [''error'' \<mapsto> JStr ''Update failed'']) st
                 else st);
          errorStatus = get_prop (updateStatus st1) ''error'';
          st2 = resetUpdateStatus st1;
          st3 = setUpdateStatus (JObj [''error'' \<mapsto> errorStatus]) st2;
          st4 = setSystemStatus Running st3
      in (Inr False, st4\<lparr>trace := trace st4 @ [LogError]\<rparr>))"

text \<open>The statements after the \<open>try\<close>. An exception of a collaborator leaves the mutation.\<close>

definition update_finish :: "update_env \<Rightarrow> module_state \<Rightarrow> (error + bool) \<times> module_state" where
  "update_finish env st =
     (let st1 = setUpdateStatus (JObj [''progress'' \<mapsto> JNum (Fin 95)]) st;
          st2 = st1\<lparr>trace := trace st1 @ [StopServices]\<rparr>
      in case stop_result env of
           Inl e \<Rightarrow> (Inl e, st2)
         | Inr u \<Rightarrow>
             (let st3 = st2\<lparr>trace := trace st2 @ [Reboot]\<rparr>
              in case reboot_result env of
                   Inl e \<Rightarrow> (Inl e, st3)
                 | Inr u \<Rightarrow> (Inr True, st3)))"

definition update ::
  "(string \<Rightarrow> error + jsval) \<Rightarrow> update_env \<Rightarrow> module_state \<Rightarrow> (error + bool) \<times> module_state" where
  "update parse env st =
     (case update_try parse env (update_start st) of
        (Inl error, st') \<Rightarrow> update_catch st'
      | (Inr u, st') \<Rightarrow> update_finish env st')"

text \<open>The attempt fails: no release data, no script, no download, or a failed process.\<close>

definition update_fails :: "update_env \<Rightarrow> bool" where
  "update_fails env =
     (case latest_release env of
        Inl e \<Rightarrow> True
      | Inr release \<Rightarrow>
          (case (if no_script (updateScript release) then None else updateScript release) of
             None \<Rightarrow> True
           | Some url \<Rightarrow>
               (case fetch_text env url of
                  Inl e \<Rightarrow> True
                | Inr contents \<Rightarrow> isl (snd (run_script env contents)))))"

section \<open>The hidden service and the factory reset\<close>

text \<open>The argument is the outcome of \<open>fse.readFile\<close> on the hostname file.\<close>

definition hiddenService :: "error + string \<Rightarrow> error + string" where
  "hiddenService read_result = (case read_result of Inr contents \<Rightarrow> Inr contents | Inl error \<Rightarrow> Inr [])"

text \<open>\<open>validatePassword\<close> is the outcome of the user module's check of the password.
  \<open>startReset\<close> and \<open>factoryResetDemoState\<close> belong to \<open>factory-reset.js\<close>, which is not
  among the sources: they are parameters, the state of that module after the call and the
  snapshot read from it. The call is not awaited.\<close>

definition factoryReset ::
  "(string \<Rightarrow> error + bool) \<Rightarrow> (string \<Rightarrow> 'w \<Rightarrow> 'w) \<Rightarrow> ('w \<Rightarrow> 'p) \<Rightarrow> string \<Rightarrow> string \<Rightarrow>
     'w \<Rightarrow> (error + 'p) \<times> 'w" where
  "factoryReset validatePassword startReset factoryResetDemoState dataDirectory password w =
     (case validatePassword password of
        Inl e \<Rightarrow> (Inl e, w)
      | Inr valid \<Rightarrow>
          if \<not> valid then (Inl (TRPCError ''UNAUTHORIZED'' ''Invalid password''), w)
          else (let w' = startReset dataDirectory w
                in (Inr (factoryResetDemoState w'), w')))"

text \<open>
  Modelled from the spec: \<open>startReset\<close> of \<open>factory-reset.js\<close>. The specification says that
  the call "triggers an asynchronous, observable reset procedure on a specified data
  location" and that the "reset continues after the call returns". The module is a
  progress snapshot and the resets that run in the background; \<open>publish\<close> is what the
  procedure does to the snapshot before it first suspends.
\<close>

record 'p reset_module =
  resetDemoState :: "'p option"
  running_resets :: "string list"

definition startReset_spec ::
  "('p option \<Rightarrow> 'p option) \<Rightarrow> string \<Rightarrow> 'p reset_module \<Rightarrow> 'p reset_module" where
  "startReset_spec publish dataDirectory m =
     m\<lparr>resetDemoState := publish (resetDemoState m),
       running_resets := running_resets m @ [dataDirectory]\<rparr>"

section \<open>Example inputs\<close>

text \<open>
  \<open>JSON.parse\<close> on two texts; the examples below apply it to no other text but
  \<open>not-json\<close>, which it rejects.
\<close>

definition sample_parse :: "string \<Rightarrow> error + jsval" where
  \<open>sample_parse s =
     (if s = ''{"progress": 42}'' then Inr (JObj [''progress'' \<mapsto> JNum (Fin 42)])
      else if s = ''{"error": "disk full"}'' then Inr (JObj [''error'' \<mapsto> JStr ''disk full''])
      else Inl (Error ''SyntaxError''))\<close>

text \<open>\<open>JSON.parse\<close> on one more text.\<close>

definition sample_parse_100 :: "string \<Rightarrow> error + jsval" where
  \<open>sample_parse_100 s =
     (if s = ''{"progress": 100}'' then Inr (JObj [''progress'' \<mapsto> JNum (Fin 100)])
      else Inl (Error ''SyntaxError''))\<close>

text \<open>A release with a script that writes \<open>chunks\<close> and settles as \<open>exit\<close>.\<close>

definition sample_env :: "string list \<Rightarrow> error + unit \<Rightarrow> update_env" where
  "sample_env chunks exit =
     \<lparr>latest_release = Inr \<lparr>version = ''1.1'', releaseNotes = ''notes'',
                              updateScript = Some ''https://example.org/update.sh''\<rparr>,
      fetch_text = (\<lambda>url. Inr ''mender install''),
      run_script = (\<lambda>contents. (chunks, exit)),
      stop_result = Inr (),
      reboot_result = Inr ()\<rparr>"

text \<open>A release without a script.\<close>

definition sample_env_no_script :: update_env where
  "sample_env_no_script =
     \<lparr>latest_release = Inr \<lparr>version = ''1.1'', releaseNotes = ''notes'', updateScript = None\<rparr>,
      fetch_text = (\<lambda>url. Inl (Error ''not reached'')),
      run_script = (\<lambda>contents. ([], Inr ())),
      stop_result = Inr (),
      reboot_result = Inr ()\<rparr>"

text \<open>A check of the password that knows one password.\<close>

definition sample_validate :: "string \<Rightarrow> error + bool" where
  "sample_validate password = Inr (password = ''moneyprintergobrrr'')"

section \<open>Rounding to a double\<close>

lemma pow2_pos: "0 < pow2 e"
  by (simp add: pow2_def)

lemma round_half_even_ge: "\<lfloor>y\<rfloor> \<le> round_half_even y"
  by (simp add: round_half_even_def Let_def)

lemma round_half_even_of_int: "round_half_even (of_int m) = m"
  by (simp add: round_half_even_def Let_def)

lemma ilog2_ge1:
  assumes "1 \<le> x"
  shows "0 \<le> ilog2 x" and "pow2 (ilog2 x) \<le> x" and "x < pow2 (ilog2 x + 1)"
proof -
  let ?m = "\<lfloor>x\<rfloor>"
  have m: "0 < ?m" using assms by simp
  have b: "1 \<le> bitlen ?m" using m by (simp add: bitlen_alt_def)
  have k: "ilog2 x = bitlen ?m - 1" using assms by (simp add: ilog2_def)
  show "0 \<le> ilog2 x" using b k by simp
  from bitlen_bounds[OF m] have lo: "2 ^ nat (bitlen ?m - 1) \<le> ?m" and hi: "?m < 2 ^ nat (bitlen ?m)"
    by auto
  have "pow2 (ilog2 x) = of_int (2 ^ nat (bitlen ?m - 1))"
    using b k by (simp add: pow2_def)
  also have "\<dots> \<le> of_int ?m" using lo by (simp only: of_int_le_iff)
  also have "\<dots> \<le> x" by simp
  finally show "pow2 (ilog2 x) \<le> x" .
  have "?m + 1 \<le> 2 ^ nat (bitlen ?m)" using hi by simp
  then have "(of_int (?m + 1) :: rat) \<le> of_int (2 ^ nat (bitlen ?m))" by (simp only: of_int_le_iff)
  moreover have "x < of_int (?m + 1)" by linarith
  moreover have "pow2 (ilog2 x + 1) = of_int (2 ^ nat (bitlen ?m))"
    using b k by (simp add: pow2_def)
  ultimately show "x < pow2 (ilog2 x + 1)" by simp
qed

text \<open>Rounding never goes below the truncated significand.\<close>

lemma fl_ge_floor:
  assumes "0 < x"
  shows "of_int \<lfloor>x / pow2 (ilog2 x - 52)\<rfloor> * pow2 (ilog2 x - 52) \<le> fl x"
proof -
  have "fl x = of_int (round_half_even (x / pow2 (ilog2 x - 52))) * pow2 (ilog2 x - 52)"
    using assms by (simp add: fl_def Let_def)
  moreover have "(of_int \<lfloor>x / pow2 (ilog2 x - 52)\<rfloor> :: rat) \<le> of_int (round_half_even (x / pow2 (ilog2 x - 52)))"
    using round_half_even_ge by (simp only: of_int_le_iff)
  ultimately show ?thesis using pow2_pos[of "ilog2 x - 52"] by simp
qed

text \<open>A small positive integer is a double, so rounding cannot cross it from above.\<close>

lemma fl_ge_int:
  assumes c: "1 \<le> c" "c \<le> 2 ^ 52" and x: "of_int c \<le> x"
  shows "of_int c \<le> fl x"
proof -
  have "(1::rat) \<le> of_int c" using c(1) by simp
  then have x1: "1 \<le> x" using x by (rule order_trans)
  let ?e = "ilog2 x - 52"
  have step: "of_int c \<le> of_int \<lfloor>x / pow2 ?e\<rfloor> * pow2 ?e"
  proof (cases "?e \<le> 0")
    case True
    define N :: int where "N = 2 ^ nat (- ?e)"
    have N: "0 < N" by (simp add: N_def)
    have p: "pow2 ?e = 1 / of_int N"
      using True by (cases "?e = 0") (simp_all add: pow2_def N_def)
    have "of_int (c * N) \<le> x * of_int N" using x N by simp
    then have "c * N \<le> \<lfloor>x * of_int N\<rfloor>" by (simp only: le_floor_iff)
    then have "(of_int (c * N) :: rat) \<le> of_int \<lfloor>x * of_int N\<rfloor>" by (simp only: of_int_le_iff)
    then have "of_int c * of_int N \<le> (of_int \<lfloor>x * of_int N\<rfloor> :: rat)" by simp
    then have "of_int c \<le> (of_int \<lfloor>x * of_int N\<rfloor> :: rat) / of_int N"
      using N by (simp add: pos_le_divide_eq)
    then show ?thesis by (simp add: p)
  next
    case False
    then have e: "0 < ?e" by simp
    have "pow2 (ilog2 x) = pow2 ?e * 2 ^ 52"
      using e by (simp add: pow2_def nat_diff_distrib power_diff flip: power_add)
    then have "pow2 ?e * 2 ^ 52 \<le> x" using ilog2_ge1(2)[OF x1] by simp
    then have "2 ^ 52 \<le> x / pow2 ?e" using pow2_pos[of ?e] by (simp add: pos_le_divide_eq mult.commute)
    then have "of_int (2 ^ 52) \<le> x / pow2 ?e" by simp
    then have "2 ^ 52 \<le> \<lfloor>x / pow2 ?e\<rfloor>" by (simp only: le_floor_iff)
    with c(2) have "c \<le> \<lfloor>x / pow2 ?e\<rfloor>" by (rule order_trans)
    then have F: "(of_int c :: rat) \<le> of_int \<lfloor>x / pow2 ?e\<rfloor>"
      by (simp only: of_int_le_iff)
    have "(0::rat) \<le> of_int c" using c(1) by simp
    with F have F0: "(0::rat) \<le> of_int \<lfloor>x / pow2 ?e\<rfloor>" by (rule order_trans[rotated])
    have P: "1 \<le> pow2 ?e" using e by (simp add: pow2_def)
    have "of_int \<lfloor>x / pow2 ?e\<rfloor> * 1 \<le> of_int \<lfloor>x / pow2 ?e\<rfloor> * pow2 ?e"
      using P F0 by (rule mult_left_mono)
    with F show ?thesis by simp
  qed
  have "0 < x" using x1 by simp
  from fl_ge_floor[OF this] step show ?thesis by simp
qed

text \<open>The exponent is right for every positive rational, so the rounding is to a nearest
  double.\<close>

lemma pow2_neg: "0 \<le> n \<Longrightarrow> pow2 (- n) = 1 / 2 ^ nat n"
  by (cases "n = 0") (simp_all add: pow2_def)

lemma ilog2_lt1:
  assumes "0 < x" "x < 1"
  shows "pow2 (ilog2 x) \<le> x" and "x < pow2 (ilog2 x + 1)"
proof -
  let ?m = "\<lceil>1 / x\<rceil> - 1"
  let ?b = "bitlen ?m"
  have inv: "1 < 1 / x" using assms by simp
  then have "2 \<le> \<lceil>1 / x\<rceil>" by (simp add: le_ceiling_iff)
  then have m: "0 < ?m" by simp
  have b: "1 \<le> ?b" using m by (simp add: bitlen_alt_def)
  have k: "ilog2 x = - ?b" using assms by (simp add: ilog2_def)
  from bitlen_bounds[OF m] have lo: "2 ^ nat (?b - 1) \<le> ?m" and hi: "?m < 2 ^ nat ?b"
    by auto
  have up: "1 / x \<le> of_int (?m + 1)" by simp
  have dn: "of_int ?m < 1 / x" by linarith
  have "?m + 1 \<le> 2 ^ nat ?b" using hi by simp
  then have "(of_int (?m + 1) :: rat) \<le> of_int (2 ^ nat ?b)" by (simp only: of_int_le_iff)
  with up have "1 / x \<le> of_int (2 ^ nat ?b)" by (rule order_trans)
  then have "1 / x \<le> 2 ^ nat ?b" by simp
  then have "1 \<le> 2 ^ nat ?b * x" using assms(1) by (simp add: pos_divide_le_eq)
  then have "1 / 2 ^ nat ?b \<le> x" by (simp add: pos_divide_le_eq mult.commute)
  moreover have "pow2 (ilog2 x) = 1 / 2 ^ nat ?b" using b k pow2_neg[of ?b] by simp
  ultimately show "pow2 (ilog2 x) \<le> x" by simp
  have "(of_int (2 ^ nat (?b - 1)) :: rat) \<le> of_int ?m" using lo by (simp only: of_int_le_iff)
  then have "of_int (2 ^ nat (?b - 1)) < 1 / x" using dn by (rule le_less_trans)
  then have "2 ^ nat (?b - 1) < 1 / x" by simp
  then have "2 ^ nat (?b - 1) * x < 1" using assms(1) by (simp add: pos_less_divide_eq)
  then have x: "x < 1 / 2 ^ nat (?b - 1)" by (simp add: pos_less_divide_eq mult.commute)
  have "ilog2 x + 1 = - (?b - 1)" using k by simp
  then have "pow2 (ilog2 x + 1) = 1 / 2 ^ nat (?b - 1)"
    using b pow2_neg[of "?b - 1"] by simp
  with x show "x < pow2 (ilog2 x + 1)" by simp
qed

lemma ilog2_bounds:
  assumes "0 < x"
  shows "pow2 (ilog2 x) \<le> x \<and> x < pow2 (ilog2 x + 1)"
proof (cases "1 \<le> x")
  case True
  then show ?thesis using ilog2_ge1 by blast
next
  case False
  then have "x < 1" by simp
  with assms show ?thesis using ilog2_lt1 by blast
qed

lemma pow2_powi: "pow2 e = 2 powi e"
proof (cases "0 \<le> e")
  case True
  then show ?thesis by (simp add: pow2_def power_int_def)
next
  case False
  have "(1::rat) / 2 ^ nat (- e) = inverse 2 ^ nat (- e)"
    by (simp add: power_one_over inverse_eq_divide)
  with False show ?thesis by (simp only: pow2_def power_int_def if_False)
qed

lemma pow2_add: "pow2 (a + b) = pow2 a * pow2 b"
  unfolding pow2_powi by (simp add: power_int_add)

lemma round_half_even_near: "\<bar>of_int (round_half_even y) - y\<bar> \<le> 1 / 2"
proof -
  define r where "r = y - of_int \<lfloor>y\<rfloor>"
  have r: "0 \<le> r" "r < 1" using floor_correct[of y] by (simp_all add: r_def)
  have y: "y = of_int \<lfloor>y\<rfloor> + r" by (simp add: r_def)
  consider "r < 1 / 2" | "1 / 2 < r" | "r = 1 / 2" by linarith
  then show ?thesis
  proof cases
    case 1
    then have "round_half_even y = \<lfloor>y\<rfloor>" by (simp add: round_half_even_def Let_def r_def)
    then have "of_int (round_half_even y) - y = - r" by (simp add: r_def)
    then show ?thesis using r 1 by simp
  next
    case 2
    then have "round_half_even y = \<lfloor>y\<rfloor> + 1" by (simp add: round_half_even_def Let_def r_def)
    then have "of_int (round_half_even y) - y = 1 - r" by (simp add: r_def)
    then show ?thesis using r 2 by simp
  next
    case 3
    then have "round_half_even y = \<lfloor>y\<rfloor> \<or> round_half_even y = \<lfloor>y\<rfloor> + 1"
      by (simp add: round_half_even_def Let_def r_def)
    then have "of_int (round_half_even y) - y = - r \<or> of_int (round_half_even y) - y = 1 - r"
      by (auto simp add: r_def)
    then show ?thesis using 3 by auto
  qed
qed

lemma round_half_even_le: "round_half_even y \<le> \<lfloor>y\<rfloor> + 1"
  by (simp add: round_half_even_def Let_def)

text \<open>The result of the rounding is a 53-bit significand times a power of two, and it is
  within half a unit in the last place of the exact value.\<close>

lemma fl_nearest:
  assumes "0 < x"
  shows "\<exists>m. fl x = of_int m * pow2 (ilog2 x - 52) \<and> 2 ^ 52 \<le> m \<and> m \<le> 2 ^ 53 \<and>
             \<bar>fl x - x\<bar> \<le> pow2 (ilog2 x - 52) / 2"
proof -
  let ?e = "ilog2 x - 52"
  let ?y = "x / pow2 ?e"
  let ?m = "round_half_even ?y"
  have p: "0 < pow2 ?e" by (rule pow2_pos)
  have f: "fl x = of_int ?m * pow2 ?e" using assms by (simp add: fl_def Let_def)
  have c: "pow2 52 = 2 ^ 52" "pow2 53 = 2 ^ 53" by (simp_all add: pow2_def)
  have "pow2 (?e + 52) = pow2 ?e * 2 ^ 52" "pow2 (?e + 53) = pow2 ?e * 2 ^ 53"
    unfolding pow2_add c by simp_all
  then have s: "pow2 (ilog2 x) = pow2 ?e * 2 ^ 52" "pow2 (ilog2 x + 1) = pow2 ?e * 2 ^ 53"
    by (simp_all add: algebra_simps)
  from ilog2_bounds[OF assms] have "pow2 ?e * 2 ^ 52 \<le> x" "x < pow2 ?e * 2 ^ 53"
    unfolding s by simp_all
  then have y: "2 ^ 52 \<le> ?y" "?y < 2 ^ 53"
    using p by (simp_all add: pos_le_divide_eq pos_divide_less_eq mult.commute)
  have "of_int (2 ^ 52) \<le> ?y" using y(1) by simp
  then have "2 ^ 52 \<le> \<lfloor>?y\<rfloor>" by (simp only: le_floor_iff)
  then have lo: "2 ^ 52 \<le> ?m" using round_half_even_ge[of ?y] by (rule order_trans)
  have "?y < of_int (2 ^ 53)" using y(2) by simp
  then have "\<lfloor>?y\<rfloor> < 2 ^ 53" by (simp only: floor_less_iff)
  then have "\<lfloor>?y\<rfloor> + 1 \<le> 2 ^ 53" by simp
  with round_half_even_le[of ?y] have hi: "?m \<le> 2 ^ 53" by (rule order_trans)
  have "fl x - x = (of_int ?m - ?y) * pow2 ?e" using p by (simp add: f algebra_simps)
  then have "\<bar>fl x - x\<bar> = \<bar>of_int ?m - ?y\<bar> * pow2 ?e" using p by (simp add: abs_mult)
  also have "\<dots> \<le> 1 / 2 * pow2 ?e"
    using round_half_even_near[of ?y] p by (intro mult_right_mono) simp_all
  finally have "\<bar>fl x - x\<bar> \<le> pow2 ?e / 2" by simp
  with f lo hi show ?thesis by blast
qed

text \<open>Evaluation of the rounding on numerals by the simplifier.\<close>

lemma bitlen_numeral:
  "bitlen 1 = 1"
  "bitlen (numeral (Num.Bit0 k)) = bitlen (numeral k) + 1"
  "bitlen (numeral (Num.Bit1 k)) = bitlen (numeral k) + 1"
  "bitlen (numeral Num.One) = 1"
proof -
  show "bitlen 1 = 1" by (simp add: compute_bitlen)
  then show "bitlen (numeral Num.One) = 1" by simp
  have "bitlen (numeral (Num.Bit0 k)) = bitlen (numeral (Num.Bit0 k) div 2) + 1"
    by (subst compute_bitlen) simp
  then show "bitlen (numeral (Num.Bit0 k)) = bitlen (numeral k) + 1" by simp
  have "bitlen (numeral (Num.Bit1 k)) = bitlen (numeral (Num.Bit1 k) div 2) + 1"
    by (subst compute_bitlen) simp
  then show "bitlen (numeral (Num.Bit1 k)) = bitlen (numeral k) + 1" by simp
qed

lemma floor_rat_numeral: "\<lfloor>numeral a / numeral b :: rat\<rfloor> = numeral a div numeral b"
  using floor_divide_of_int_eq[of "numeral a" "numeral b", where ?'a = rat] by simp

lemma ceiling_rat_numeral: "\<lceil>numeral a / numeral b :: rat\<rceil> = - (- numeral a div numeral b)"
proof -
  have "\<lfloor>of_int (- numeral a) / of_int (numeral b) :: rat\<rfloor> = - numeral a div numeral b"
    by (rule floor_divide_of_int_eq)
  then show ?thesis by (simp add: ceiling_def)
qed

lemmas js_eval = progress_of_dots_def Math_min_def js_add_def js_mul_def js_div_def Math_floor_def
  fl_def ilog2_def pow2_def round_half_even_def bitlen_numeral Let_def
  floor_rat_numeral ceiling_rat_numeral

text \<open>Three roundings whose results are well known: the doubles written \<open>0.1\<close> and
  \<open>0.7\<close>, and the product \<open>0.7 * 90\<close>, which is \<open>63 - 2^-47\<close> and prints as
  \<open>62.99999999999999\<close>.\<close>

lemma fl_known_doubles:
  "fl (1 / 10) = 3602879701896397 / 2 ^ 55"
  "fl (49 / 70) = 3152519739159347 / 2 ^ 52"
  "fl (fl (49 / 70) * 90) = 63 - 1 / 2 ^ 47"
  by (simp_all add: js_eval)

text \<open>Every natural number up to \<open>2^53\<close> is a double; the successor of \<open>2^53\<close> is not.\<close>

lemma fl_of_nat:
  assumes "n \<le> 2 ^ 53"
  shows "fl (of_nat n) = of_nat n"
proof (cases "n = 0 \<or> n = 2 ^ 53")
  case True
  then show ?thesis
  proof
    assume "n = 0" then show ?thesis by (simp add: fl_def)
  next
    assume "n = 2 ^ 53"
    moreover have "fl (2 ^ 53) = 2 ^ 53" by (simp add: js_eval)
    ultimately show ?thesis by simp
  qed
next
  case False
  then have n: "0 < n" "n < 2 ^ 53" using assms by auto
  let ?x = "of_nat n :: rat"
  have x1: "1 \<le> ?x" using n by simp
  have "bitlen (int n) \<le> 53"
    using n by (simp add: bitlen_le_iff_power)
  moreover have "1 \<le> bitlen (int n)" using n by (simp add: bitlen_alt_def)
  ultimately have e: "ilog2 ?x - 52 \<le> 0"
    using x1 by (simp_all add: ilog2_def)
  define N :: int where "N = 2 ^ nat (- (ilog2 ?x - 52))"
  have N: "0 < N" by (simp add: N_def)
  have p: "pow2 (ilog2 ?x - 52) = 1 / of_int N"
    using e by (cases "ilog2 ?x - 52 = 0") (simp_all add: pow2_def N_def)
  have "?x / pow2 (ilog2 ?x - 52) = of_int (int n * N)" by (simp add: p)
  then have "round_half_even (?x / pow2 (ilog2 ?x - 52)) = int n * N"
    by (simp only: round_half_even_of_int)
  then have "fl ?x = of_int (int n * N) * (1 / of_int N)"
    using n by (simp add: fl_def Let_def p)
  then show ?thesis using N by simp
qed

lemma fl_2_53_plus_1: "fl (2 ^ 53 + 1) = 2 ^ 53"
  by (simp add: js_eval)

section \<open>The progress of a dot count\<close>

lemma progress_of_dots_le_95: "progress_of_dots d \<le> 95"
  by (simp add: progress_of_dots_def Math_min_def)

lemma progress_of_dots_ge_70:
  assumes "70 \<le> d"
  shows "progress_of_dots d = 95"
proof -
  have "of_int 1 \<le> d / 70" using assms by simp
  then have "of_int 1 \<le> fl (d / 70)" by (rule fl_ge_int[rotated 2]) simp_all
  then have "of_int 90 \<le> fl (d / 70) * 90" by simp
  then have "of_int 90 \<le> fl (fl (d / 70) * 90)" by (rule fl_ge_int[rotated 2]) simp_all
  then have "90 \<le> \<lfloor>fl (fl (d / 70) * 90)\<rfloor>" by (simp only: le_floor_iff)
  then have "of_int 95 \<le> (of_int (\<lfloor>fl (fl (d / 70) * 90)\<rfloor> + 5) :: rat)" by simp
  then have "of_int 95 \<le> fl (of_int (\<lfloor>fl (fl (d / 70) * 90)\<rfloor> + 5))" by (rule fl_ge_int[rotated 2]) simp_all
  then show ?thesis
    by (simp add: progress_of_dots_def Math_min_def js_add_def js_mul_def js_div_def Math_floor_def)
qed

lemma spec_progress_eq: "spec_progress n = min 95 (int (n * 9 div 7) + 5)"
proof -
  have "of_nat n / 70 * (90::rat) = of_int (int (n * 9)) / of_int 7" by simp
  then have "\<lfloor>of_nat n / 70 * (90::rat)\<rfloor> = int (n * 9) div 7"
    by (simp only: floor_divide_of_int_eq)
  then show ?thesis by (simp add: spec_progress_def zdiv_int)
qed

text \<open>Below 70 dots the double computation is evaluated value by value.\<close>

lemma progress_table:
  "\<forall>n\<in>{..<70}. progress_of_dots (of_nat n) = (if n = 49 then 67 else of_int (spec_progress n))"
  by (simp add: lessThan_nat_numeral lessThan_Suc) (simp add: js_eval spec_progress_eq)

lemma progress_of_dots_nat:
  "progress_of_dots (of_nat n) = (if n = 49 then 67 else of_int (spec_progress n))"
proof (cases "n < 70")
  case True
  then show ?thesis using progress_table by simp
next
  case False
  then have "70 \<le> (of_nat n :: rat)" by simp
  then have "progress_of_dots (of_nat n) = 95" by (rule progress_of_dots_ge_70)
  moreover have "spec_progress n = 95" using False by (simp add: spec_progress_eq)
  ultimately show ?thesis using False by simp
qed

section \<open>The lines of the output\<close>

lemma marker_length: "length marker = 15"
  by (simp add: marker_def)

lemma replace_prefix: "prefix pat s \<Longrightarrow> replace s pat rep = rep @ drop (length pat) s"
  by (cases s) auto

lemma dot_not_marker: "\<not> startsWith ''.'' marker"
  by (simp add: startsWith_def marker_def)

lemma marker_not_dot: "startsWith line marker \<Longrightarrow> line \<noteq> ''.''"
  using dot_not_marker by auto

lemma empty_not_marker: "\<not> startsWith [] marker"
  by (simp add: startsWith_def marker_def)

lemma setUpdateStatus_obj:
  "setUpdateStatus (JObj p) st =
     st\<lparr>updateStatus := updateStatus st ++ p, trace := trace st @ [UpdateStatusSet (JObj p)]\<rparr>"
  by (simp add: setUpdateStatus_def)

lemma handle_line_dot:
  "handle_line parse ''.'' (d, st) =
     (js_add d 1,
      st\<lparr>updateStatus := (updateStatus st)(''progress'' \<mapsto> JNum (Fin (progress_of_dots (js_add d 1)))),
         trace := trace st @ [LogVerboseProgress (progress_of_dots (js_add d 1)),
                              UpdateStatusSet (JObj [''progress'' \<mapsto> JNum (Fin (progress_of_dots (js_add d 1)))])]\<rparr>)"
  using dot_not_marker
  by (simp add: handle_line_def Let_def progress_of_dots_def setUpdateStatus_obj)

lemma handle_line_marker:
  assumes "startsWith line marker"
  shows "handle_line parse line (d, st) =
     (d, case parse (drop (length marker) line) of Inl err \<Rightarrow> st | Inr status \<Rightarrow> setUpdateStatus status st)"
proof -
  have "replace line marker [] = drop (length marker) line"
    using assms replace_prefix[of marker line "[]"] by (simp add: startsWith_def)
  then show ?thesis using assms marker_not_dot[OF assms]
    by (simp add: handle_line_def Let_def)
qed

lemma handle_line_other:
  assumes "\<not> startsWith line marker" "line \<noteq> ''.''"
  shows "handle_line parse line ds = ds"
  using assms by (simp add: handle_line_def Let_def)

lemma js_add_1_nat:
  assumes "n < 2 ^ 53"
  shows "js_add (of_nat n) 1 = of_nat (Suc n)"
proof -
  have "Suc n \<le> 2 ^ 53" using assms by simp
  then have "fl (of_nat (Suc n)) = of_nat (Suc n)" by (rule fl_of_nat)
  then show ?thesis by (simp add: js_add_def add.commute)
qed

lemma js_add_1_top: "js_add (2 ^ 53) 1 = 2 ^ 53"
  using fl_2_53_plus_1 by (simp add: js_add_def)

lemma logged_progress_append: "logged_progress (xs @ ys) = logged_progress xs @ logged_progress ys"
  by (induction xs rule: logged_progress.induct) simp_all

lemma handle_line_not_dot:
  assumes "line \<noteq> ''.''"
  shows "fst (handle_line parse line (d, st)) = d"
    and "logged_progress (trace (snd (handle_line parse line (d, st)))) = logged_progress (trace st)"
  using assms
  by (auto simp add: handle_line_def Let_def setUpdateStatus_def logged_progress_append split: sum.splits)

lemma progress_examples:
  "progress_of_dots 35 = 50" "progress_of_dots 70 = 95" "progress_of_dots 140 = 95"
  using progress_of_dots_nat[of 35] progress_of_dots_nat[of 70] progress_of_dots_nat[of 140]
  by (simp_all add: spec_progress_eq)

lemma dot_step:
  assumes "n < 2 ^ 53"
  shows "handle_line parse ''.'' (of_nat n, st) =
     (of_nat (n + 1),
      st\<lparr>updateStatus := (updateStatus st)(''progress'' \<mapsto> JNum (Fin (progress_of_dots (of_nat (n + 1))))),
         trace := trace st @ [LogVerboseProgress (progress_of_dots (of_nat (n + 1))),
                              UpdateStatusSet (JObj [''progress'' \<mapsto> JNum (Fin (progress_of_dots (of_nat (n + 1))))])]\<rparr>)"
proof -
  have d: "js_add (of_nat n) 1 = of_nat (n + 1)"
    using js_add_1_nat[OF assms] by simp
  show ?thesis unfolding handle_line_dot d ..
qed

lemma non_dot_lines:
  "\<forall>line d s. line \<noteq> ''.'' \<longrightarrow>
            fst (handle_line parse line (d, s)) = d \<and>
            logged_progress (trace (snd (handle_line parse line (d, s)))) = logged_progress (trace s) \<and>
            (\<not> startsWith line marker \<longrightarrow> handle_line parse line (d, s) = (d, s))"
proof (intro allI impI conjI)
  fix line d s
  assume l: "line \<noteq> ''.''"
  show "fst (handle_line parse line (d, s)) = d" using l by (rule handle_line_not_dot)
  show "logged_progress (trace (snd (handle_line parse line (d, s)))) = logged_progress (trace s)"
    using l by (rule handle_line_not_dot)
  assume "\<not> startsWith line marker"
  then show "handle_line parse line (d, s) = (d, s)" using l by (rule handle_line_other)
qed

text \<open>
  Claim C1, as amended. A line that is exactly \<open>.\<close> increments the counter (a double,
  which counts exactly below \<open>2^53\<close>) and writes \<open>progress\<close> and no other field. The value
  written is \<open>min(95, floor(dots/70 * 90) + 5)\<close> for every dot count but 49, where the
  rounding of \<open>49/70\<close> and of its product with 90 gives 67 and not 68. 35 dots give 50,
  70 give 95 and 140 give 95. A line that is not a dot leaves the counter alone and
  evaluates no progress; if it does not start with the marker either, it changes nothing.
\<close>

theorem dot_line_progress:
  assumes "n < 2 ^ 53"
  shows "(let p = (if n + 1 = 49 then 67 else of_int (spec_progress (n + 1)))
          in handle_line parse ''.'' (of_nat n, st) =
               (of_nat (n + 1),
                st\<lparr>updateStatus := (updateStatus st)(''progress'' \<mapsto> JNum (Fin p)),
                   trace := trace st @ [LogVerboseProgress p,
                                        UpdateStatusSet (JObj [''progress'' \<mapsto> JNum (Fin p)])]\<rparr>)) \<and>
         progress_of_dots 35 = 50 \<and> progress_of_dots 70 = 95 \<and> progress_of_dots 140 = 95 \<and>
         (\<forall>line d s. line \<noteq> ''.'' \<longrightarrow>
            fst (handle_line parse line (d, s)) = d \<and>
            logged_progress (trace (snd (handle_line parse line (d, s)))) = logged_progress (trace s) \<and>
            (\<not> startsWith line marker \<longrightarrow> handle_line parse line (d, s) = (d, s)))"
proof (intro conjI)
  show "let p = (if n + 1 = 49 then 67 else of_int (spec_progress (n + 1)))
          in handle_line parse ''.'' (of_nat n, st) =
               (of_nat (n + 1),
                st\<lparr>updateStatus := (updateStatus st)(''progress'' \<mapsto> JNum (Fin p)),
                   trace := trace st @ [LogVerboseProgress p,
                                        UpdateStatusSet (JObj [''progress'' \<mapsto> JNum (Fin p)])]\<rparr>)"
    unfolding Let_def progress_of_dots_nat[of "n + 1", symmetric] using assms by (rule dot_step)
qed (rule progress_examples non_dot_lines)+

theorem dot_line_progress_witness:
  "(34::nat) < 2 ^ 53 \<and>
   fst (handle_line sample_parse ''.'' (34, initial_state)) = 35 \<and>
   updateStatus (snd (handle_line sample_parse ''.'' (34, initial_state))) =
     (updateStatus initial_state)(''progress'' \<mapsto> JNum (Fin 50))"
proof -
  have h: "(34::nat) < 2 ^ 53" by simp
  have s: "spec_progress 35 = 50" by (simp add: spec_progress_eq)
  from dot_line_progress[OF h, of sample_parse initial_state]
  have "handle_line sample_parse ''.'' (34, initial_state) =
      (35, initial_state\<lparr>updateStatus := (updateStatus initial_state)(''progress'' \<mapsto> JNum (Fin 50)),
             trace := trace initial_state @ [LogVerboseProgress 50,
                        UpdateStatusSet (JObj [''progress'' \<mapsto> JNum (Fin 50)])]\<rparr>)"
    by (simp add: s)
  then show ?thesis using h by simp
qed

text \<open>
  The 49th dot of an attempt writes 67, where the formula of the claim gives 68. (And a
  counter that has reached \<open>2^53\<close> is not incremented by a further dot.)
\<close>

theorem dot_49_counterexample:
  "fst (handle_line sample_parse ''.'' (48, initial_state)) = 49 \<and>
   get_prop (updateStatus (snd (handle_line sample_parse ''.'' (48, initial_state)))) ''progress''
     = JNum (Fin 67) \<and>
   min 95 (\<lfloor>(49::rat) / 70 * 90\<rfloor> + 5) = 68 \<and> spec_progress 49 = 68 \<and>
   fst (handle_line sample_parse ''.'' (2 ^ 53, initial_state)) = 2 ^ 53"
proof -
  have a: "js_add 48 1 = 49" using js_add_1_nat[of 48] by simp
  have b: "progress_of_dots 49 = 67" using progress_of_dots_nat[of 49] by simp
  have c: "\<lfloor>(49::rat) / 70 * 90\<rfloor> = 63" by simp
  have d: "spec_progress 49 = 68" by (simp add: spec_progress_eq)
  show ?thesis
    unfolding handle_line_dot a b c d js_add_1_top by (simp add: get_prop_def)
qed

text \<open>
  Claim C3. A write to the update status is a shallow merge: a property that the partial
  object names takes the value supplied, every other property keeps its value, and the
  system status is not touched.
\<close>

theorem setUpdateStatus_shallow_merge:
  "(properties k = Some v \<longrightarrow> updateStatus (setUpdateStatus (JObj properties) st) k = Some v) \<and>
   (properties k = None \<longrightarrow>
      updateStatus (setUpdateStatus (JObj properties) st) k = updateStatus st k) \<and>
   systemStatus (setUpdateStatus (JObj properties) st) = systemStatus st"
  by (simp add: setUpdateStatus_def map_add_def)

theorem setUpdateStatus_shallow_merge_witness:
  "get_prop (updateStatus (setUpdateStatus (JObj [''progress'' \<mapsto> JNum (Fin 10)])
      \<lparr>systemStatus = Updating,
       updateStatus = [''running'' \<mapsto> JBool True, ''progress'' \<mapsto> JNum (Fin 5),
                       ''description'' \<mapsto> JStr ''x'', ''error'' \<mapsto> JBool False],
       trace = []\<rparr>)) ''progress'' = JNum (Fin 10) \<and>
   get_prop (updateStatus (setUpdateStatus (JObj [''progress'' \<mapsto> JNum (Fin 10)])
      \<lparr>systemStatus = Updating,
       updateStatus = [''running'' \<mapsto> JBool True, ''progress'' \<mapsto> JNum (Fin 5),
                       ''description'' \<mapsto> JStr ''x'', ''error'' \<mapsto> JBool False],
       trace = []\<rparr>)) ''running'' = JBool True \<and>
   get_prop (updateStatus (setUpdateStatus (JObj [''progress'' \<mapsto> JNum (Fin 10)])
      \<lparr>systemStatus = Updating,
       updateStatus = [''running'' \<mapsto> JBool True, ''progress'' \<mapsto> JNum (Fin 5),
                       ''description'' \<mapsto> JStr ''x'', ''error'' \<mapsto> JBool False],
       trace = []\<rparr>)) ''description'' = JStr ''x''"
  using
    setUpdateStatus_shallow_merge[of "[''progress'' \<mapsto> JNum (Fin 10)]" "''progress''" "JNum (Fin 10)"
      "\<lparr>systemStatus = Updating,
       updateStatus = [''running'' \<mapsto> JBool True, ''progress'' \<mapsto> JNum (Fin 5),
                       ''description'' \<mapsto> JStr ''x'', ''error'' \<mapsto> JBool False],
       trace = []\<rparr>"]
    setUpdateStatus_shallow_merge[of "[''progress'' \<mapsto> JNum (Fin 10)]" "''running''" JNull
      "\<lparr>systemStatus = Updating,
       updateStatus = [''running'' \<mapsto> JBool True, ''progress'' \<mapsto> JNum (Fin 5),
                       ''description'' \<mapsto> JStr ''x'', ''error'' \<mapsto> JBool False],
       trace = []\<rparr>"]
    setUpdateStatus_shallow_merge[of "[''progress'' \<mapsto> JNum (Fin 10)]" "''description''" JNull
      "\<lparr>systemStatus = Updating,
       updateStatus = [''running'' \<mapsto> JBool True, ''progress'' \<mapsto> JNum (Fin 5),
                       ''description'' \<mapsto> JStr ''x'', ''error'' \<mapsto> JBool False],
       trace = []\<rparr>"]
  by (simp add: get_prop_def)

text \<open>
  Claim C6. A line that starts with the marker and whose remainder \<open>JSON.parse\<close>
  rejects is dropped: the handler returns the state it was given, and the lines after it
  are handled as if the line were not there. When the remainder parses to an object, its
  properties are merged into the update status and nothing else changes. The remainder
  is the line without its first 15 characters.
\<close>

theorem marker_line_handled:
  assumes "startsWith line marker"
  shows "replace line marker [] = drop 15 line \<and>
         (parse (drop 15 line) = Inl err \<longrightarrow>
            handle_line parse line ds = ds \<and>
            fold (handle_line parse) (before @ line # rest) ds =
              fold (handle_line parse) (before @ rest) ds) \<and>
         (parse (drop 15 line) = Inr (JObj p) \<longrightarrow>
            handle_line parse line (d, st) =
              (d, st\<lparr>updateStatus := updateStatus st ++ p,
                     trace := trace st @ [UpdateStatusSet (JObj p)]\<rparr>))"
proof (intro conjI impI)
  show "replace line marker [] = drop 15 line"
    using assms replace_prefix[of marker line "[]"] by (simp add: startsWith_def marker_length)
  show "handle_line parse line (d, st) =
              (d, st\<lparr>updateStatus := updateStatus st ++ p,
                     trace := trace st @ [UpdateStatusSet (JObj p)]\<rparr>)"
    if "parse (drop 15 line) = Inr (JObj p)"
    using that by (simp add: handle_line_marker[OF assms] marker_length setUpdateStatus_obj)
  assume e: "parse (drop 15 line) = Inl err"
  show h: "handle_line parse line ds = ds"
    using e handle_line_marker[OF assms, of parse "fst ds" "snd ds"] by (simp add: marker_length)
  show "fold (handle_line parse) (before @ line # rest) ds =
              fold (handle_line parse) (before @ rest) ds"
    using e handle_line_marker[OF assms, of parse "fst (fold (handle_line parse) before ds)"
        "snd (fold (handle_line parse) before ds)"]
    by (simp add: marker_length)
qed

theorem marker_line_handled_witness:
  \<open>startsWith ''umbrel-update: not-json'' marker \<and>
   sample_parse (drop 15 ''umbrel-update: not-json'') = Inl (Error ''SyntaxError'') \<and>
   fold (handle_line sample_parse) [''umbrel-update: not-json'', ''umbrel-update: {"progress": 42}'']
       (0, initial_state) =
     (0, initial_state\<lparr>updateStatus := updateStatus initial_state ++ [''progress'' \<mapsto> JNum (Fin 42)],
           trace := trace initial_state @ [UpdateStatusSet (JObj [''progress'' \<mapsto> JNum (Fin 42)])]\<rparr>)\<close>
proof -
  have a: "startsWith ''umbrel-update: not-json'' marker"
    by (simp add: startsWith_def marker_def)
  have b: \<open>startsWith ''umbrel-update: {"progress": 42}'' marker\<close>
    by (simp add: startsWith_def marker_def)
  have c: "sample_parse (drop 15 ''umbrel-update: not-json'') = Inl (Error ''SyntaxError'')"
    by (simp add: sample_parse_def)
  have d: \<open>sample_parse (drop 15 ''umbrel-update: {"progress": 42}'') =
      Inr (JObj [''progress'' \<mapsto> JNum (Fin 42)])\<close>
    by (simp add: sample_parse_def)
  from marker_line_handled[OF a, of sample_parse "Error ''SyntaxError''" "(0, initial_state)" "[]"
      \<open>[''umbrel-update: {"progress": 42}'']\<close>] c
  have "fold (handle_line sample_parse)
      [''umbrel-update: not-json'', ''umbrel-update: {\"progress\": 42}''] (0, initial_state) =
      handle_line sample_parse ''umbrel-update: {\"progress\": 42}'' (0, initial_state)"
    by simp
  also from marker_line_handled[OF b, of sample_parse _ _ _ _ "[''progress'' \<mapsto> JNum (Fin 42)]" 0 initial_state] d
  have "\<dots> = (0, initial_state\<lparr>updateStatus := updateStatus initial_state ++ [''progress'' \<mapsto> JNum (Fin 42)],
           trace := trace initial_state @ [UpdateStatusSet (JObj [''progress'' \<mapsto> JNum (Fin 42)])]\<rparr>)"
    by simp
  finally show ?thesis using a c by simp
qed

section \<open>Chunks and lines\<close>

lemma split_str_not_Nil: "split_str s sep \<noteq> []"
  by (induction s) (auto split: list.splits)

lemma split_str_append: "split_str (a @ sep # b) sep = split_str a sep @ split_str b sep"
proof (induction a)
  case Nil
  show ?case by simp
next
  case (Cons c a)
  obtain l ls where "split_str a sep = l # ls"
    using split_str_not_Nil[of a sep] by (cases "split_str a sep") auto
  with Cons show ?case by simp
qed

lemma handle_line_Nil: "handle_line parse [] ds = ds"
  using empty_not_marker by (simp add: handle_line_def Let_def)

lemma handle_chunk_append:
  "handleUpdateScriptOutput parse (a @ newline # b) ds =
     handleUpdateScriptOutput parse b (handleUpdateScriptOutput parse a ds)"
  by (simp add: handleUpdateScriptOutput_def split_str_append)

lemma handle_chunk_Nil: "handleUpdateScriptOutput parse [] ds = ds"
  by (simp add: handleUpdateScriptOutput_def handle_line_Nil)

lemma handle_chunk_ends_newline:
  assumes "c \<noteq> []" "last c = newline"
  shows "handleUpdateScriptOutput parse (c @ b) ds =
     handleUpdateScriptOutput parse b (handleUpdateScriptOutput parse c ds)"
proof -
  have c: "c = butlast c @ [newline]" using assms by (metis append_butlast_last_id)
  have "handleUpdateScriptOutput parse c ds = handleUpdateScriptOutput parse (butlast c) ds"
    using handle_chunk_append[of parse "butlast c" "[]" ds] c by (simp add: handle_chunk_Nil)
  moreover have "handleUpdateScriptOutput parse (c @ b) ds =
      handleUpdateScriptOutput parse b (handleUpdateScriptOutput parse (butlast c) ds)"
    using handle_chunk_append[of parse "butlast c" b ds] c
    by (metis append.assoc append_Cons append_Nil)
  ultimately show ?thesis by simp
qed

lemma process_output_concat:
  assumes "\<forall>c \<in> set (butlast chunks). c \<noteq> [] \<and> last c = newline"
  shows "process_output parse chunks ds = handleUpdateScriptOutput parse (concat chunks) ds"
  using assms
proof (induction chunks arbitrary: ds)
  case Nil
  show ?case by (simp add: process_output_def handle_chunk_Nil)
next
  case (Cons c cs)
  show ?case
  proof (cases "cs = []")
    case True
    then show ?thesis by (simp add: process_output_def)
  next
    case False
    with Cons.prems have c: "c \<noteq> []" "last c = newline"
      and rest: "\<forall>c \<in> set (butlast cs). c \<noteq> [] \<and> last c = newline"
      by simp_all
    have "process_output parse (c # cs) ds =
        process_output parse cs (handleUpdateScriptOutput parse c ds)"
      by (simp add: process_output_def)
    also have "\<dots> = handleUpdateScriptOutput parse (concat cs) (handleUpdateScriptOutput parse c ds)"
      using rest by (rule Cons.IH)
    also have "\<dots> = handleUpdateScriptOutput parse (c @ concat cs) ds"
      using handle_chunk_ends_newline[OF c] by simp
    finally show ?thesis by simp
  qed
qed

text \<open>
  Claim C2, as amended. Each chunk is split at its line breaks on its own, and its pieces
  are handled in order, so a chunk with several lines has the effect of each of them.
  When every chunk but the last ends with a line break, the chunks have the effect of
  their concatenation. Nothing is carried from one chunk to the next: a line that is cut
  by a chunk boundary is handled as two lines.
\<close>

theorem chunks_at_line_breaks:
  assumes "\<forall>c \<in> set (butlast chunks). c \<noteq> [] \<and> last c = newline"
  shows "process_output parse chunks ds = handleUpdateScriptOutput parse (concat chunks) ds \<and>
         (\<forall>text s. handleUpdateScriptOutput parse text s =
                     fold (handle_line parse) (split_str text newline) s) \<and>
         (\<forall>a b s. handleUpdateScriptOutput parse (a @ newline # b) s =
                    handleUpdateScriptOutput parse b (handleUpdateScriptOutput parse a s)) \<and>
         (\<forall>a b s. process_output parse [a, b] s =
                    fold (handle_line parse) (split_str a newline @ split_str b newline) s)"
  using process_output_concat[OF assms] handle_chunk_append
  by (simp add: handleUpdateScriptOutput_def process_output_def)

theorem chunks_at_line_breaks_witness:
  \<open>get_prop (updateStatus (snd (process_output sample_parse
       [[CHR ''.'', newline], ''umbrel-update: {"progress": 42}'' @ [newline], ''.''] (0, initial_state))))
     ''progress'' = JNum (Fin 7) \<and>
   fst (handleUpdateScriptOutput sample_parse
       (concat [[CHR ''.'', newline], ''umbrel-update: {"progress": 42}'' @ [newline], ''.'']) (0, initial_state)) = 2\<close>
proof -
  have h: \<open>\<forall>c \<in> set (butlast [[CHR ''.'', newline], ''umbrel-update: {"progress": 42}'' @ [newline], ''.'']).
      c \<noteq> [] \<and> last c = newline\<close>
    by simp
  have a: "js_add 0 1 = 1" using js_add_1_nat[of 0] by simp
  have b: "js_add 1 1 = 2" using js_add_1_nat[of 1] by simp
  have p: "progress_of_dots 2 = 7" using progress_of_dots_nat[of 2] by (simp add: spec_progress_eq)
  have m: \<open>startsWith ''umbrel-update: {"progress": 42}'' marker\<close>
    by (simp add: startsWith_def marker_def)
  have d: \<open>sample_parse (drop (length marker) ''umbrel-update: {"progress": 42}'') =
      Inr (JObj [''progress'' \<mapsto> JNum (Fin 42)])\<close>
    by (simp add: sample_parse_def marker_def)
  have \<open>process_output sample_parse
       [[CHR ''.'', newline], ''umbrel-update: {"progress": 42}'' @ [newline], ''.''] (0, initial_state) =
     handle_line sample_parse ''.'' (handle_line sample_parse ''umbrel-update: {"progress": 42}''
       (handle_line sample_parse ''.'' (0, initial_state)))\<close>
    by (simp add: process_output_def handleUpdateScriptOutput_def newline_def handle_line_Nil)
  then have \<open>get_prop (updateStatus (snd (process_output sample_parse
       [[CHR ''.'', newline], ''umbrel-update: {"progress": 42}'' @ [newline], ''.''] (0, initial_state))))
     ''progress'' = JNum (Fin 7) \<and>
     fst (process_output sample_parse
       [[CHR ''.'', newline], ''umbrel-update: {"progress": 42}'' @ [newline], ''.''] (0, initial_state)) = 2\<close>
    by (simp add: handle_line_dot handle_line_marker[OF m] d a b p get_prop_def)
  then show ?thesis
    using chunks_at_line_breaks[OF h, of sample_parse "(0, initial_state)"] by simp
qed

text \<open>
  A line with a status update, cut inside its marker: whole, it sets the progress to 42;
  in two chunks, neither piece is recognised and the progress stays as it was.
\<close>

theorem split_line_counterexample:
  \<open>''umbrel-upd'' @ ''ate: {"progress": 42}'' = ''umbrel-update: {"progress": 42}'' \<and>
   get_prop (updateStatus (snd (process_output sample_parse
       [''umbrel-update: {"progress": 42}''] (0, initial_state)))) ''progress'' = JNum (Fin 42) \<and>
   get_prop (updateStatus (snd (process_output sample_parse
       [''umbrel-upd'', ''ate: {"progress": 42}''] (0, initial_state)))) ''progress'' = JNum (Fin 0)\<close>
proof -
  have m: \<open>startsWith ''umbrel-update: {"progress": 42}'' marker\<close>
    by (simp add: startsWith_def marker_def)
  have d: \<open>sample_parse (drop (length marker) ''umbrel-update: {"progress": 42}'') =
      Inr (JObj [''progress'' \<mapsto> JNum (Fin 42)])\<close>
    by (simp add: sample_parse_def marker_def)
  have n1: \<open>\<not> startsWith ''umbrel-upd'' marker\<close> \<open>''umbrel-upd'' \<noteq> ''.''\<close>
    by (simp_all add: startsWith_def marker_def)
  have n2: \<open>\<not> startsWith ''ate: {"progress": 42}'' marker\<close> \<open>''ate: {"progress": 42}'' \<noteq> ''.''\<close>
    by (simp_all add: startsWith_def marker_def)
  have whole: \<open>process_output sample_parse [''umbrel-update: {"progress": 42}''] (0, initial_state) =
      handle_line sample_parse ''umbrel-update: {"progress": 42}'' (0, initial_state)\<close>
    by (simp add: process_output_def handleUpdateScriptOutput_def newline_def)
  have cut: \<open>process_output sample_parse [''umbrel-upd'', ''ate: {"progress": 42}''] (0, initial_state) =
      handle_line sample_parse ''ate: {"progress": 42}''
        (handle_line sample_parse ''umbrel-upd'' (0, initial_state))\<close>
    by (simp add: process_output_def handleUpdateScriptOutput_def newline_def)
  show ?thesis
    unfolding whole cut handle_line_other[OF n1] handle_line_other[OF n2]
    by (simp add: handle_line_marker[OF m] d get_prop_def setUpdateStatus_def initial_state_def idle_status_def)
qed

section \<open>The progress values of an attempt\<close>

lemma spec_progress_mono: "m \<le> n \<Longrightarrow> spec_progress m \<le> spec_progress n"
proof -
  assume "m \<le> n"
  then have "m * 9 div 7 \<le> n * 9 div 7" by (simp add: div_le_mono)
  then show ?thesis by (simp add: spec_progress_eq)
qed

lemma progress_mono_nat:
  assumes "m \<le> n"
  shows "progress_of_dots (of_nat m) \<le> progress_of_dots (of_nat n)"
proof -
  have s: "spec_progress m \<le> spec_progress n" using assms by (rule spec_progress_mono)
  consider "m = 49" "n = 49" | "m = 49" "n \<noteq> 49" | "m \<noteq> 49" "n = 49" | "m \<noteq> 49" "n \<noteq> 49"
    by blast
  then show ?thesis
  proof cases
    case 1
    then show ?thesis by simp
  next
    case 2
    then have "50 \<le> n" using assms by simp
    then have "spec_progress 50 \<le> spec_progress n" by (rule spec_progress_mono)
    then have "67 \<le> spec_progress n" by (simp add: spec_progress_eq)
    then have "(of_int 67 :: rat) \<le> of_int (spec_progress n)" by (simp only: of_int_le_iff)
    then show ?thesis using 2 progress_of_dots_nat[of m] progress_of_dots_nat[of n] by simp
  next
    case 3
    then have "m \<le> 48" using assms by simp
    then have "spec_progress m \<le> spec_progress 48" by (rule spec_progress_mono)
    then have "spec_progress m \<le> 67" by (simp add: spec_progress_eq)
    then have "(of_int (spec_progress m) :: rat) \<le> of_int 67" by (simp only: of_int_le_iff)
    then show ?thesis using 3 progress_of_dots_nat[of m] progress_of_dots_nat[of n] by simp
  next
    case 4
    have "(of_int (spec_progress m) :: rat) \<le> of_int (spec_progress n)"
      using s by (simp only: of_int_le_iff)
    then show ?thesis using 4 progress_of_dots_nat[of m] progress_of_dots_nat[of n] by simp
  qed
qed

lemma handle_line_not_dot_trace:
  assumes "line \<noteq> ''.''"
  shows "\<exists>new. trace (snd (handle_line parse line (d, st))) = trace st @ new \<and> logged_progress new = []"
proof (cases "startsWith line marker")
  case True
  show ?thesis
  proof (cases "parse (drop (length marker) line)")
    case (Inl e)
    then show ?thesis by (simp add: handle_line_marker[OF True])
  next
    case (Inr v)
    then have "trace (snd (handle_line parse line (d, st))) = trace st @ [UpdateStatusSet v]"
      by (simp add: handle_line_marker[OF True] setUpdateStatus_def)
    then show ?thesis by simp
  qed
next
  case False
  then show ?thesis using assms by (simp add: handle_line_other)
qed

text \<open>One line keeps the counter a natural number, never lowers it, and evaluates at most
  one progress value, that of the new count.\<close>

lemma handle_line_counter:
  assumes "k \<le> 2 ^ 53"
  shows "\<exists>k' new. k \<le> k' \<and> k' \<le> 2 ^ 53
           \<and> fst (handle_line parse line (of_nat k, st)) = of_nat k'
           \<and> trace (snd (handle_line parse line (of_nat k, st))) = trace st @ new
           \<and> (logged_progress new = [] \<or> logged_progress new = [progress_of_dots (of_nat k')])"
proof (cases "line = ''.''")
  case False
  from handle_line_not_dot_trace[OF False, of parse "of_nat k" st]
  obtain new where "trace (snd (handle_line parse line (of_nat k, st))) = trace st @ new"
    "logged_progress new = []" by blast
  moreover have "fst (handle_line parse line (of_nat k, st)) = of_nat k"
    using False by (rule handle_line_not_dot)
  ultimately show ?thesis using assms by blast
next
  case True
  define k' where "k' = (if k < 2 ^ 53 then k + 1 else k)"
  have d: "js_add (of_nat k) 1 = of_nat k'"
  proof (cases "k < 2 ^ 53")
    case True
    then show ?thesis using js_add_1_nat[of k] by (simp add: k'_def)
  next
    case False
    with assms have "k = 2 ^ 53" by simp
    then show ?thesis using js_add_1_top by (simp add: k'_def)
  qed
  have b: "k \<le> k'" "k' \<le> 2 ^ 53" using assms by (simp_all add: k'_def)
  let ?new = "[LogVerboseProgress (progress_of_dots (of_nat k')),
      UpdateStatusSet (JObj [''progress'' \<mapsto> JNum (Fin (progress_of_dots (of_nat k')))])]"
  have "fst (handle_line parse line (of_nat k, st)) = of_nat k'"
    and "trace (snd (handle_line parse line (of_nat k, st))) = trace st @ ?new"
    unfolding True handle_line_dot d by simp_all
  moreover have "logged_progress ?new = [progress_of_dots (of_nat k')]" by simp
  ultimately show ?thesis using b by blast
qed

lemma fold_lines_counter:
  assumes "k \<le> 2 ^ 53"
  shows "\<exists>k' new. k \<le> k' \<and> k' \<le> 2 ^ 53
           \<and> fst (fold (handle_line parse) lines (of_nat k, st)) = of_nat k'
           \<and> trace (snd (fold (handle_line parse) lines (of_nat k, st))) = trace st @ new
           \<and> sorted (logged_progress new)
           \<and> (\<forall>p \<in> set (logged_progress new). progress_of_dots (of_nat k) \<le> p \<and> p \<le> 95)"
  using assms
proof (induction lines arbitrary: k st)
  case Nil
  then show ?case by auto
next
  case (Cons line lines)
  let ?r = "handle_line parse line (of_nat k, st)"
  from handle_line_counter[OF Cons.prems, of parse line st]
  obtain k1 new1 where k1: "k \<le> k1" "k1 \<le> 2 ^ 53" "fst ?r = of_nat k1"
    and t1: "trace (snd ?r) = trace st @ new1"
    and l1: "logged_progress new1 = [] \<or> logged_progress new1 = [progress_of_dots (of_nat k1)]"
    by blast
  have r: "?r = (of_nat k1, snd ?r)" using k1(3) by (metis prod.collapse)
  from Cons.IH[OF k1(2), of "snd ?r"]
  obtain k2 new2 where k2: "k1 \<le> k2" "k2 \<le> 2 ^ 53"
    and f2: "fst (fold (handle_line parse) lines (of_nat k1, snd ?r)) = of_nat k2"
    and t2: "trace (snd (fold (handle_line parse) lines (of_nat k1, snd ?r))) = trace (snd ?r) @ new2"
    and s2: "sorted (logged_progress new2)"
    and b2: "\<forall>p \<in> set (logged_progress new2). progress_of_dots (of_nat k1) \<le> p \<and> p \<le> 95"
    by blast
  have m: "progress_of_dots (of_nat k) \<le> progress_of_dots (of_nat k1)"
    using k1(1) by (rule progress_mono_nat)
  have step: "fold (handle_line parse) (line # lines) (of_nat k, st) =
      fold (handle_line parse) lines (of_nat k1, snd ?r)"
    using r by simp
  have "sorted (logged_progress (new1 @ new2))"
    using l1 s2 b2 by (auto simp add: logged_progress_append)
  moreover have "\<forall>p \<in> set (logged_progress (new1 @ new2)). progress_of_dots (of_nat k) \<le> p \<and> p \<le> 95"
    using l1 b2 m progress_of_dots_le_95[of "of_nat k1"]
    by (auto simp add: logged_progress_append intro: order_trans)
  moreover have "trace (snd (fold (handle_line parse) (line # lines) (of_nat k, st))) = trace st @ new1 @ new2"
    unfolding step using t1 t2 by simp
  moreover have "fst (fold (handle_line parse) (line # lines) (of_nat k, st)) = of_nat k2"
    unfolding step using f2 .
  moreover have "k \<le> k2" using k1(1) k2(1) by simp
  ultimately show ?case using k2(2) by blast
qed

lemma process_output_lines:
  "process_output parse chunks ds =
     fold (handle_line parse) (concat (map (\<lambda>c. split_str c newline) chunks)) ds"
  by (induction chunks arbitrary: ds) (simp_all add: process_output_def handleUpdateScriptOutput_def)



section \<open>Failure and success of an update\<close>

lemma update_start_fields:
  "systemStatus (update_start st) = Updating"
  "updateStatus (update_start st) = updateStatus st ++ own_props start_status"
  "trace (update_start st) = trace st @ [SystemStatusSet Updating, UpdateStatusSet start_status]"
  by (simp_all add: update_start_def setUpdateStatus_def setSystemStatus_def)

lemma update_start_error: "get_prop (updateStatus (update_start st)) ''error'' = JBool False"
  by (simp add: update_start_fields start_status_def get_prop_def)

lemma update_try_release_failed:
  "latest_release env = Inl err \<Longrightarrow> update_try parse env s = (Inl err, s)"
  by (simp add: update_try_def getLatestRelease_def)

lemma update_try_no_script:
  "latest_release env = Inr release \<Longrightarrow> no_script (updateScript release) \<Longrightarrow>
   update_try parse env s =
     (Inl (Error ''No update script found''),
      setUpdateStatus (JObj [''error'' \<mapsto> JStr ''No update script found'']) s)"
  by (simp add: update_try_def getLatestRelease_def)

lemma update_try_download_failed:
  "latest_release env = Inr release \<Longrightarrow> updateScript release = Some url \<Longrightarrow> url \<noteq> [] \<Longrightarrow>
   fetch_text env url = Inl err \<Longrightarrow> update_try parse env s = (Inl err, s)"
  by (simp add: update_try_def getLatestRelease_def no_script_def)

lemma update_try_script:
  "latest_release env = Inr release \<Longrightarrow> updateScript release = Some url \<Longrightarrow> url \<noteq> [] \<Longrightarrow>
   fetch_text env url = Inr contents \<Longrightarrow>
   update_try parse env s =
     (snd (run_script env contents),
      snd (process_output parse (fst (run_script env contents)) (0, s)))"
  by (simp add: update_try_def getLatestRelease_def no_script_def)

lemma update_fails_try:
  assumes "update_fails env"
  shows "\<exists>err. fst (update_try parse env s) = Inl err"
  using assms
  by (auto simp add: update_fails_def update_try_def getLatestRelease_def isl_def
      split: sum.splits option.splits if_splits)

lemma update_catch_eq:
  "update_catch st =
     (Inr False,
      st\<lparr>systemStatus := Running,
         updateStatus := idle_status(''error'' \<mapsto>
            (if truthy (get_prop (updateStatus st) ''error'') then get_prop (updateStatus st) ''error''
             else JStr ''Update failed'')),
         trace := trace st @
            (if truthy (get_prop (updateStatus st) ''error'') then []
             else [UpdateStatusSet (JObj [''error'' \<mapsto> JStr ''Update failed''])]) @
            [UpdateStatusReset,
             UpdateStatusSet (JObj [''error'' \<mapsto>
               (if truthy (get_prop (updateStatus st) ''error'') then get_prop (updateStatus st) ''error''
                else JStr ''Update failed'')]),
             SystemStatusSet Running, LogError]\<rparr>)"
  by (simp add: update_catch_def Let_def setUpdateStatus_def resetUpdateStatus_def
      setSystemStatus_def get_prop_def)

lemma update_when_fails:
  assumes "update_fails env"
  shows "update parse env st = update_catch (snd (update_try parse env (update_start st)))"
proof -
  obtain r s where rs: "update_try parse env (update_start st) = (r, s)"
    by (cases "update_try parse env (update_start st)")
  obtain err where "fst (update_try parse env (update_start st)) = Inl err"
    using update_fails_try[OF assms] by blast
  with rs have "r = Inl err" by simp
  with rs show ?thesis by (simp add: update_def)
qed

lemma truthy_final_error:
  "truthy (if truthy e0 then e0 else JStr ''Update failed'')"
  "(if truthy e0 then e0 else JStr ''Update failed'') \<noteq> JBool False"
  "(if truthy e0 then e0 else JStr ''Update failed'') \<noteq> JStr []"
  by auto

text \<open>Lines without the marker leave the error of the status as it is.\<close>

lemma no_marker_error_kept:
  assumes "\<forall>l \<in> set lines. \<not> startsWith l marker"
  shows "get_prop (updateStatus (snd (fold (handle_line parse) lines (d, st)))) ''error''
           = get_prop (updateStatus st) ''error''"
  using assms
proof (induction lines arbitrary: d st)
  case Nil
  show ?case by simp
next
  case (Cons l ls)
  then have nm: "\<not> startsWith l marker" and rest: "\<forall>l \<in> set ls. \<not> startsWith l marker"
    by simp_all
  show ?case
  proof (cases "l = ''.''")
    case True
    have "get_prop (updateStatus (snd (fold (handle_line parse) (l # ls) (d, st)))) ''error''
        = get_prop (updateStatus (snd (handle_line parse ''.'' (d, st)))) ''error''"
      using Cons.IH[OF rest, of "fst (handle_line parse ''.'' (d, st))" "snd (handle_line parse ''.'' (d, st))"]
      by (simp add: True)
    also have "\<dots> = get_prop (updateStatus st) ''error''"
      by (simp add: handle_line_dot get_prop_def)
    finally show ?thesis .
  next
    case False
    then show ?thesis
      using Cons.IH[OF rest] by (simp add: handle_line_other[OF nm False])
  qed
qed

lemma no_marker_output_error_kept:
  assumes "\<forall>c \<in> set chunks. \<forall>l \<in> set (split_str c newline). \<not> startsWith l marker"
  shows "get_prop (updateStatus (snd (process_output parse chunks (d, st)))) ''error''
           = get_prop (updateStatus st) ''error''"
  unfolding process_output_lines using assms by (intro no_marker_error_kept) auto

lemma update_failure_status:
  assumes "update_fails env"
  shows "updateStatus (snd (update parse env st)) =
     idle_status(''error'' \<mapsto>
       (if truthy (get_prop (updateStatus (snd (update_try parse env (update_start st)))) ''error'')
        then get_prop (updateStatus (snd (update_try parse env (update_start st)))) ''error''
        else JStr ''Update failed''))"
  by (simp add: update_when_fails[OF assms] update_catch_eq)

lemma progress_writes_append:
  "progress_writes (xs @ ys) = progress_writes xs @ progress_writes ys"
  by (induction xs rule: progress_writes.induct) (simp_all split: option.splits)

lemma idle_status_fields:
  "get_prop (idle_status(''error'' \<mapsto> e)) ''running'' = JBool False"
  "get_prop (idle_status(''error'' \<mapsto> e)) ''progress'' = JNum (Fin 0)"
  "get_prop (idle_status(''error'' \<mapsto> e)) ''description'' = JStr []"
  "get_prop (idle_status(''error'' \<mapsto> e)) ''error'' = e"
  "dom (idle_status(''error'' \<mapsto> e)) = {''running'', ''progress'', ''description'', ''error''}"
  by (auto simp add: idle_status_def get_prop_def split: if_splits)

text \<open>Without status lines, the lines of the output write progress values of at most 95.\<close>

lemma no_marker_progress_writes:
  assumes "\<forall>l \<in> set lines. \<not> startsWith l marker"
  shows "\<exists>new. trace (snd (fold (handle_line parse) lines (d, s))) = trace s @ new \<and>
           (\<forall>x \<in> set (progress_writes new). \<exists>p. x = JNum (Fin p) \<and> p \<le> 95)"
  using assms
proof (induction lines arbitrary: d s)
  case Nil
  show ?case by simp
next
  case (Cons l ls)
  then have nm: "\<not> startsWith l marker" and rest: "\<forall>l \<in> set ls. \<not> startsWith l marker"
    by simp_all
  let ?r = "handle_line parse l (d, s)"
  from Cons.IH[OF rest, of "fst ?r" "snd ?r"]
  obtain new2 where t2: "trace (snd (fold (handle_line parse) ls ?r)) = trace (snd ?r) @ new2"
    and w2: "\<forall>x \<in> set (progress_writes new2). \<exists>p. x = JNum (Fin p) \<and> p \<le> 95"
    by auto
  have "\<exists>new1. trace (snd ?r) = trace s @ new1 \<and>
      (\<forall>x \<in> set (progress_writes new1). \<exists>p. x = JNum (Fin p) \<and> p \<le> 95)"
  proof (cases "l = ''.''")
    case True
    show ?thesis
      unfolding True handle_line_dot using progress_of_dots_le_95[of "js_add d 1"] by simp
  next
    case False
    then show ?thesis by (simp add: handle_line_other[OF nm False])
  qed
  then obtain new1 where t1: "trace (snd ?r) = trace s @ new1"
    and w1: "\<forall>x \<in> set (progress_writes new1). \<exists>p. x = JNum (Fin p) \<and> p \<le> 95"
    by blast
  have "trace (snd (fold (handle_line parse) (l # ls) (d, s))) = trace s @ new1 @ new2"
    using t1 t2 by simp
  moreover have "\<forall>x \<in> set (progress_writes (new1 @ new2)). \<exists>p. x = JNum (Fin p) \<and> p \<le> 95"
    using w1 w2 by (auto simp add: progress_writes_append)
  ultimately show ?case by blast
qed

lemma no_marker_output_progress_writes:
  assumes "\<forall>c \<in> set chunks. \<forall>l \<in> set (split_str c newline). \<not> startsWith l marker"
  shows "\<exists>new. trace (snd (process_output parse chunks (d, s))) = trace s @ new \<and>
           (\<forall>x \<in> set (progress_writes new). \<exists>p. x = JNum (Fin p) \<and> p \<le> 95)"
  unfolding process_output_lines using assms by (intro no_marker_progress_writes) auto

lemma start_status_progress: "own_props start_status ''progress'' = Some (JNum (Fin 5))"
  by (simp add: start_status_def)

text \<open>
  Claim C4, as amended. When the attempt fails, the mutation returns false, the system
  status is back at running and the update status has exactly the four fields of the
  idle record: \<open>running\<close> false, \<open>progress\<close> 0, \<open>description\<close> empty, and an error that
  is never false and never empty. The error is the one the status holds when the failure
  is caught if that is truthy, and \<open>Update failed\<close> otherwise: after a failed process it
  is the error that the script's status lines left, and \<open>Update failed\<close> if the output
  has no status line; after a failed fetch of the release or of the script it is
  \<open>Update failed\<close>; for a release without a script it is \<open>No update script found\<close>,
  which the mutation set itself before it raised.
\<close>

theorem update_failure:
  assumes "update_fails env"
  shows "fst (update parse env st) = Inr False \<and>
         systemStatus (snd (update parse env st)) = Running \<and>
         get_prop (updateStatus (snd (update parse env st))) ''running'' = JBool False \<and>
         get_prop (updateStatus (snd (update parse env st))) ''progress'' = JNum (Fin 0) \<and>
         get_prop (updateStatus (snd (update parse env st))) ''description'' = JStr [] \<and>
         dom (updateStatus (snd (update parse env st))) =
           {''running'', ''progress'', ''description'', ''error''} \<and>
         truthy (get_prop (updateStatus (snd (update parse env st))) ''error'') \<and>
         get_prop (updateStatus (snd (update parse env st))) ''error'' \<noteq> JBool False \<and>
         get_prop (updateStatus (snd (update parse env st))) ''error'' \<noteq> JStr [] \<and>
         (\<forall>release url contents.
            latest_release env = Inr release \<and> updateScript release = Some url \<and> url \<noteq> [] \<and>
            fetch_text env url = Inr contents \<longrightarrow>
            (let e0 = get_prop (updateStatus (snd (process_output parse (fst (run_script env contents))
                                  (0, update_start st)))) ''error''
             in get_prop (updateStatus (snd (update parse env st))) ''error'' =
                  (if truthy e0 then e0 else JStr ''Update failed''))) \<and>
         (\<forall>release url contents.
            latest_release env = Inr release \<and> updateScript release = Some url \<and> url \<noteq> [] \<and>
            fetch_text env url = Inr contents \<and>
            (\<forall>c \<in> set (fst (run_script env contents)).
               \<forall>l \<in> set (split_str c newline). \<not> startsWith l marker) \<longrightarrow>
            get_prop (updateStatus (snd (update parse env st))) ''error'' = JStr ''Update failed'') \<and>
         ((\<exists>err. latest_release env = Inl err) \<or>
          (\<exists>release url err. latest_release env = Inr release \<and> updateScript release = Some url \<and>
             url \<noteq> [] \<and> fetch_text env url = Inl err) \<longrightarrow>
            get_prop (updateStatus (snd (update parse env st))) ''error'' = JStr ''Update failed'') \<and>
         (\<forall>release. latest_release env = Inr release \<and> no_script (updateScript release) \<longrightarrow>
            get_prop (updateStatus (snd (update parse env st))) ''error'' =
              JStr ''No update script found'')"
proof -
  let ?e0 = "get_prop (updateStatus (snd (update_try parse env (update_start st)))) ''error''"
  let ?e = "if truthy ?e0 then ?e0 else JStr ''Update failed''"
  have u: "updateStatus (snd (update parse env st)) = idle_status(''error'' \<mapsto> ?e)"
    by (rule update_failure_status[OF assms])
  have e: "get_prop (updateStatus (snd (update parse env st))) ''error'' = ?e"
    unfolding u by (rule idle_status_fields)
  show ?thesis
  proof (intro conjI allI impI)
    show "fst (update parse env st) = Inr False"
      by (simp add: update_when_fails[OF assms] update_catch_eq)
    show "systemStatus (snd (update parse env st)) = Running"
      by (simp add: update_when_fails[OF assms] update_catch_eq)
    show "get_prop (updateStatus (snd (update parse env st))) ''running'' = JBool False"
      unfolding u by (rule idle_status_fields)
    show "get_prop (updateStatus (snd (update parse env st))) ''progress'' = JNum (Fin 0)"
      unfolding u by (rule idle_status_fields)
    show "get_prop (updateStatus (snd (update parse env st))) ''description'' = JStr []"
      unfolding u by (rule idle_status_fields)
    show "dom (updateStatus (snd (update parse env st))) =
           {''running'', ''progress'', ''description'', ''error''}"
      unfolding u by (rule idle_status_fields)
    show "truthy (get_prop (updateStatus (snd (update parse env st))) ''error'')"
      unfolding e by (rule truthy_final_error)
    show "get_prop (updateStatus (snd (update parse env st))) ''error'' \<noteq> JBool False"
      unfolding e by (rule truthy_final_error)
    show "get_prop (updateStatus (snd (update parse env st))) ''error'' \<noteq> JStr []"
      unfolding e by (rule truthy_final_error)
  next
    fix release url contents
    assume "latest_release env = Inr release \<and> updateScript release = Some url \<and> url \<noteq> [] \<and>
              fetch_text env url = Inr contents"
    then have "update_try parse env (update_start st) =
       (snd (run_script env contents),
        snd (process_output parse (fst (run_script env contents)) (0, update_start st)))"
      by (intro update_try_script) auto
    then show "let e0 = get_prop (updateStatus (snd (process_output parse (fst (run_script env contents))
                                    (0, update_start st)))) ''error''
               in get_prop (updateStatus (snd (update parse env st))) ''error'' =
                    (if truthy e0 then e0 else JStr ''Update failed'')"
      by (simp add: e Let_def)
  next
    fix release url contents
    assume a: "latest_release env = Inr release \<and> updateScript release = Some url \<and> url \<noteq> [] \<and>
              fetch_text env url = Inr contents \<and>
              (\<forall>c \<in> set (fst (run_script env contents)).
                 \<forall>l \<in> set (split_str c newline). \<not> startsWith l marker)"
    then have "update_try parse env (update_start st) =
       (snd (run_script env contents),
        snd (process_output parse (fst (run_script env contents)) (0, update_start st)))"
      by (intro update_try_script) auto
    moreover have "get_prop (updateStatus (snd (process_output parse (fst (run_script env contents))
        (0, update_start st)))) ''error'' = JBool False"
      using a by (simp add: no_marker_output_error_kept update_start_error)
    ultimately show "get_prop (updateStatus (snd (update parse env st))) ''error'' = JStr ''Update failed''"
      by (simp add: e)
  next
    assume "(\<exists>err. latest_release env = Inl err) \<or>
            (\<exists>release url err. latest_release env = Inr release \<and> updateScript release = Some url \<and>
               url \<noteq> [] \<and> fetch_text env url = Inl err)"
    then have "\<exists>err. update_try parse env (update_start st) = (Inl err, update_start st)"
      using update_try_release_failed update_try_download_failed by blast
    then show "get_prop (updateStatus (snd (update parse env st))) ''error'' = JStr ''Update failed''"
      by (auto simp add: e update_start_error)
  next
    fix release
    assume "latest_release env = Inr release \<and> no_script (updateScript release)"
    then have "update_try parse env (update_start st) =
       (Inl (Error ''No update script found''),
        setUpdateStatus (JObj [''error'' \<mapsto> JStr ''No update script found'']) (update_start st))"
      by (intro update_try_no_script) auto
    then have "?e0 = JStr ''No update script found''"
      by (simp add: setUpdateStatus_def get_prop_def)
    then show "get_prop (updateStatus (snd (update parse env st))) ''error'' =
                JStr ''No update script found''"
      by (simp add: e)
  qed
qed

theorem update_failure_witness:
  \<open>update_fails (sample_env [''umbrel-update: {"error": "disk full"}''] (Inl (Error ''exit 1''))) \<and>
   fst (update sample_parse (sample_env [''umbrel-update: {"error": "disk full"}''] (Inl (Error ''exit 1'')))
          initial_state) = Inr False \<and>
   systemStatus (snd (update sample_parse
        (sample_env [''umbrel-update: {"error": "disk full"}''] (Inl (Error ''exit 1''))) initial_state))
     = Running \<and>
   get_prop (updateStatus (snd (update sample_parse
        (sample_env [''umbrel-update: {"error": "disk full"}''] (Inl (Error ''exit 1''))) initial_state)))
     ''running'' = JBool False \<and>
   get_prop (updateStatus (snd (update sample_parse
        (sample_env [''umbrel-update: {"error": "disk full"}''] (Inl (Error ''exit 1''))) initial_state)))
     ''progress'' = JNum (Fin 0) \<and>
   get_prop (updateStatus (snd (update sample_parse
        (sample_env [''umbrel-update: {"error": "disk full"}''] (Inl (Error ''exit 1''))) initial_state)))
     ''description'' = JStr [] \<and>
   get_prop (updateStatus (snd (update sample_parse
        (sample_env [''umbrel-update: {"error": "disk full"}''] (Inl (Error ''exit 1''))) initial_state)))
     ''error'' = JStr ''disk full'' \<and>
   update_fails (sample_env [''.''] (Inl (Error ''exit 1''))) \<and>
   get_prop (updateStatus (snd (update sample_parse (sample_env [''.''] (Inl (Error ''exit 1'')))
        initial_state))) ''error'' = JStr ''Update failed''\<close>
proof -
  let ?env = \<open>sample_env [''umbrel-update: {"error": "disk full"}''] (Inl (Error ''exit 1''))\<close>
  let ?env2 = "sample_env [''.''] (Inl (Error ''exit 1''))"
  have f: "update_fails ?env"
    by (simp add: update_fails_def sample_env_def no_script_def)
  have f2: "update_fails ?env2"
    by (simp add: update_fails_def sample_env_def no_script_def)
  have m: \<open>startsWith ''umbrel-update: {"error": "disk full"}'' marker\<close>
    by (simp add: startsWith_def marker_def)
  have d: \<open>sample_parse (drop (length marker) ''umbrel-update: {"error": "disk full"}'') =
      Inr (JObj [''error'' \<mapsto> JStr ''disk full''])\<close>
    by (simp add: sample_parse_def marker_def)
  have e0: \<open>get_prop (updateStatus (snd (process_output sample_parse
      [''umbrel-update: {"error": "disk full"}''] (0, update_start initial_state)))) ''error''
      = JStr ''disk full''\<close>
    by (simp add: process_output_def handleUpdateScriptOutput_def newline_def
        handle_line_marker[OF m] d setUpdateStatus_def get_prop_def)
  note t = update_failure[OF f, of sample_parse initial_state]
  note t2 = update_failure[OF f2, of sample_parse initial_state]
  have a: "fst (update sample_parse ?env initial_state) = Inr False"
    and b: "systemStatus (snd (update sample_parse ?env initial_state)) = Running"
    and r: "get_prop (updateStatus (snd (update sample_parse ?env initial_state))) ''running'' = JBool False"
    and p: "get_prop (updateStatus (snd (update sample_parse ?env initial_state))) ''progress'' = JNum (Fin 0)"
    and s: "get_prop (updateStatus (snd (update sample_parse ?env initial_state))) ''description'' = JStr []"
    using t by simp_all
  have c: "get_prop (updateStatus (snd (update sample_parse ?env initial_state))) ''error''
      = JStr ''disk full''"
    using t[THEN conjunct2, THEN conjunct2, THEN conjunct2, THEN conjunct2, THEN conjunct2,
        THEN conjunct2, THEN conjunct2, THEN conjunct2, THEN conjunct2, THEN conjunct1, rule_format,
        of "\<lparr>version = ''1.1'', releaseNotes = ''notes'',
             updateScript = Some ''https://example.org/update.sh''\<rparr>"
           "''https://example.org/update.sh''" "''mender install''"]
    by (simp add: sample_env_def e0[unfolded sample_env_def])
  have nm: "\<forall>c \<in> set [''.'']. \<forall>l \<in> set (split_str c newline). \<not> startsWith l marker"
    by (simp add: newline_def startsWith_def marker_def)
  have c2: "get_prop (updateStatus (snd (update sample_parse ?env2 initial_state))) ''error''
      = JStr ''Update failed''"
    using t2[THEN conjunct2, THEN conjunct2, THEN conjunct2, THEN conjunct2, THEN conjunct2,
        THEN conjunct2, THEN conjunct2, THEN conjunct2, THEN conjunct2, THEN conjunct2,
        THEN conjunct1, rule_format,
        of "\<lparr>version = ''1.1'', releaseNotes = ''notes'',
             updateScript = Some ''https://example.org/update.sh''\<rparr>"
           "''https://example.org/update.sh''" "''mender install''"] nm
    by (simp add: sample_env_def)
  show ?thesis using f f2 a b r p s c c2 by simp
qed

text \<open>
  A release without a script: no script runs and no status line is handled, every write
  of the trace is the mutation's own, and the error that remains is
  \<open>No update script found\<close>, not the generic \<open>Update failed\<close>.
\<close>

theorem missing_script_error_counterexample:
  "update_fails sample_env_no_script \<and>
   fst (update sample_parse sample_env_no_script initial_state) = Inr False \<and>
   get_prop (updateStatus (snd (update sample_parse sample_env_no_script initial_state))) ''error''
     = JStr ''No update script found'' \<and>
   JStr ''No update script found'' \<noteq> JStr ''Update failed'' \<and>
   trace (snd (update sample_parse sample_env_no_script initial_state)) =
     [SystemStatusSet Updating, UpdateStatusSet start_status,
      UpdateStatusSet (JObj [''error'' \<mapsto> JStr ''No update script found'']),
      UpdateStatusReset,
      UpdateStatusSet (JObj [''error'' \<mapsto> JStr ''No update script found'']),
      SystemStatusSet Running, LogError]"
proof -
  have f: "update_fails sample_env_no_script"
    by (simp add: update_fails_def sample_env_no_script_def no_script_def)
  have l: "latest_release sample_env_no_script =
     Inr \<lparr>version = ''1.1'', releaseNotes = ''notes'', updateScript = None\<rparr>"
    by (simp add: sample_env_no_script_def)
  have n: "no_script (updateScript \<lparr>version = ''1.1'', releaseNotes = ''notes'', updateScript = None\<rparr>)"
    by (simp add: no_script_def)
  have "update_try sample_parse sample_env_no_script (update_start initial_state) =
     (Inl (Error ''No update script found''),
      setUpdateStatus (JObj [''error'' \<mapsto> JStr ''No update script found'']) (update_start initial_state))"
    using l n by (rule update_try_no_script)
  then have "update sample_parse sample_env_no_script initial_state =
     update_catch (setUpdateStatus (JObj [''error'' \<mapsto> JStr ''No update script found''])
        (update_start initial_state))"
    by (simp add: update_def)
  then show ?thesis
    using f
    by (simp add: update_catch_eq setUpdateStatus_def update_start_def setSystemStatus_def
        get_prop_def initial_state_def)
qed

text \<open>
  Claim C5. When the release data has no \<open>updateScript\<close>, the mutation records the error
  \<open>No update script found\<close>, goes through the failure handler and returns false: the
  status is the idle record with that error, the system status ends at running, and
  neither the download nor the script nor the reboot is reached.
\<close>

theorem update_without_script:
  assumes "latest_release env = Inr release" "updateScript release = None"
  shows "update parse env st =
     (Inr False,
      st\<lparr>systemStatus := Running,
         updateStatus := idle_status(''error'' \<mapsto> JStr ''No update script found''),
         trace := trace st @
           [SystemStatusSet Updating, UpdateStatusSet start_status,
            UpdateStatusSet (JObj [''error'' \<mapsto> JStr ''No update script found'']),
            UpdateStatusReset,
            UpdateStatusSet (JObj [''error'' \<mapsto> JStr ''No update script found'']),
            SystemStatusSet Running, LogError]\<rparr>)"
proof -
  have n: "no_script (updateScript release)" using assms(2) by (simp add: no_script_def)
  have "update_try parse env (update_start st) =
     (Inl (Error ''No update script found''),
      setUpdateStatus (JObj [''error'' \<mapsto> JStr ''No update script found'']) (update_start st))"
    using assms(1) n by (rule update_try_no_script)
  then show ?thesis
    by (simp add: update_def update_catch_eq setUpdateStatus_def update_start_def
        setSystemStatus_def get_prop_def)
qed

theorem update_without_script_witness:
  "latest_release sample_env_no_script =
     Inr \<lparr>version = ''1.1'', releaseNotes = ''notes'', updateScript = None\<rparr> \<and>
   fst (update sample_parse sample_env_no_script initial_state) = Inr False \<and>
   systemStatus (snd (update sample_parse sample_env_no_script initial_state)) = Running \<and>
   get_prop (updateStatus (snd (update sample_parse sample_env_no_script initial_state))) ''error''
     = JStr ''No update script found''"
proof -
  have l: "latest_release sample_env_no_script =
     Inr \<lparr>version = ''1.1'', releaseNotes = ''notes'', updateScript = None\<rparr>"
    by (simp add: sample_env_no_script_def)
  show ?thesis
    using l update_without_script[OF l, of sample_parse initial_state]
    by (simp add: get_prop_def)
qed

lemma update_finish_ok:
  assumes "stop_result env = Inr ()" "reboot_result env = Inr ()"
  shows "update_finish env s =
     (Inr True,
      s\<lparr>updateStatus := (updateStatus s)(''progress'' \<mapsto> JNum (Fin 95)),
        trace := trace s @ [UpdateStatusSet (JObj [''progress'' \<mapsto> JNum (Fin 95)]),
                            StopServices, Reboot]\<rparr>)"
  using assms by (simp add: update_finish_def Let_def setUpdateStatus_obj)

lemma process_output_trace:
  "\<exists>new. trace (snd (process_output parse chunks (0, s))) = trace s @ new \<and>
         (\<forall>p \<in> set (logged_progress new). p \<le> 95)"
proof -
  have z: "(0::nat) \<le> 2 ^ 53" by simp
  from fold_lines_counter[OF z, of parse "concat (map (\<lambda>c. split_str c newline) chunks)" s]
  show ?thesis unfolding process_output_lines by auto
qed

text \<open>
  Claim C7, as amended. When the release names a script, the script is downloaded and the
  process settles with success, and the two collaborators return, the mutation does three
  things after the process and in this order: it writes progress 95, it stops the
  services, it issues the reboot; then it returns true. The last write of progress in the
  attempt is this 95, and it is the progress that the stop and the reboot see. The
  mutation's own writes never exceed 95: the dot lines compute at most 95, and when the
  output has no status line every progress written in the attempt is a number of at most
  95, so never 100. A status line of the script can write any progress before the process
  exits, 100 too.
\<close>

theorem update_success_order:
  assumes "latest_release env = Inr release" "updateScript release = Some url" "url \<noteq> []"
    and "fetch_text env url = Inr contents" "snd (run_script env contents) = Inr ()"
    and "stop_result env = Inr ()" "reboot_result env = Inr ()"
  shows "(let st2 = snd (process_output parse (fst (run_script env contents)) (0, update_start st))
          in update parse env st =
               (Inr True,
                st2\<lparr>updateStatus := (updateStatus st2)(''progress'' \<mapsto> JNum (Fin 95)),
                    trace := trace st2 @ [UpdateStatusSet (JObj [''progress'' \<mapsto> JNum (Fin 95)]),
                                          StopServices, Reboot]\<rparr>)) \<and>
         get_prop (updateStatus (snd (update parse env st))) ''progress'' = JNum (Fin 95) \<and>
         (\<exists>ws. progress_writes (drop (length (trace st)) (trace (snd (update parse env st))))
                 = ws @ [JNum (Fin 95)]) \<and>
         (\<forall>p \<in> set (logged_progress (drop (length (trace st)) (trace (snd (update parse env st))))).
            p \<le> 95) \<and>
         ((\<forall>c \<in> set (fst (run_script env contents)).
             \<forall>l \<in> set (split_str c newline). \<not> startsWith l marker) \<longrightarrow>
          (\<forall>x \<in> set (progress_writes (drop (length (trace st)) (trace (snd (update parse env st))))).
             \<exists>p. x = JNum (Fin p) \<and> p \<le> 95 \<and> p \<noteq> 100))"
proof -
  let ?st2 = "snd (process_output parse (fst (run_script env contents)) (0, update_start st))"
  have "update_try parse env (update_start st) = (Inr (), ?st2)"
    using update_try_script[OF assms(1-4), of parse "update_start st"] assms(5) by simp
  then have u: "update parse env st =
               (Inr True,
                ?st2\<lparr>updateStatus := (updateStatus ?st2)(''progress'' \<mapsto> JNum (Fin 95)),
                    trace := trace ?st2 @ [UpdateStatusSet (JObj [''progress'' \<mapsto> JNum (Fin 95)]),
                                          StopServices, Reboot]\<rparr>)"
    by (simp add: update_def update_finish_ok[OF assms(6,7)])
  obtain new where n: "trace ?st2 = trace (update_start st) @ new"
    "\<forall>p \<in> set (logged_progress new). p \<le> 95"
    using process_output_trace[of parse "fst (run_script env contents)" "update_start st"] by blast
  have tr: "drop (length (trace st)) (trace (snd (update parse env st))) =
      [SystemStatusSet Updating, UpdateStatusSet start_status] @ new @
      [UpdateStatusSet (JObj [''progress'' \<mapsto> JNum (Fin 95)]), StopServices, Reboot]"
    by (simp add: u n(1) update_start_fields)
  have w: "progress_writes (drop (length (trace st)) (trace (snd (update parse env st)))) =
      (JNum (Fin 5) # progress_writes new) @ [JNum (Fin 95)]"
    unfolding tr by (simp add: progress_writes_append start_status_progress)
  have l: "logged_progress (drop (length (trace st)) (trace (snd (update parse env st))))
      = logged_progress new"
    unfolding tr by (simp add: logged_progress_append)
  have c3: "\<exists>ws. progress_writes (drop (length (trace st)) (trace (snd (update parse env st))))
                 = ws @ [JNum (Fin 95)]"
    using w by blast
  have c4: "\<forall>p \<in> set (logged_progress (drop (length (trace st)) (trace (snd (update parse env st))))).
            p \<le> 95"
    unfolding l using n(2) .
  have c5: "\<forall>x \<in> set (progress_writes (drop (length (trace st)) (trace (snd (update parse env st))))).
             \<exists>p. x = JNum (Fin p) \<and> p \<le> 95 \<and> p \<noteq> 100"
    if nm: "\<forall>c \<in> set (fst (run_script env contents)).
             \<forall>l \<in> set (split_str c newline). \<not> startsWith l marker"
  proof -
    obtain new' where n': "trace ?st2 = trace (update_start st) @ new'"
      "\<forall>x \<in> set (progress_writes new'). \<exists>p. x = JNum (Fin p) \<and> p \<le> 95"
      using no_marker_output_progress_writes[OF nm, of parse 0 "update_start st"] by blast
    have "new' = new" using n(1) n'(1) by simp
    then have "\<forall>x \<in> set (progress_writes new). \<exists>p. x = JNum (Fin p) \<and> p \<le> 95"
      using n'(2) by simp
    then have "\<forall>x \<in> set (progress_writes (drop (length (trace st)) (trace (snd (update parse env st))))).
             \<exists>p. x = JNum (Fin p) \<and> p \<le> 95"
      unfolding w by auto
    then show ?thesis by fastforce
  qed
  show ?thesis using u c3 c4 c5 by (simp add: Let_def get_prop_def)
qed

theorem update_success_order_witness:
  "fst (update sample_parse (sample_env [''.''] (Inr ())) initial_state) = Inr True \<and>
   trace (snd (update sample_parse (sample_env [''.''] (Inr ())) initial_state)) =
     [SystemStatusSet Updating, UpdateStatusSet start_status,
      LogVerboseProgress 6, UpdateStatusSet (JObj [''progress'' \<mapsto> JNum (Fin 6)]),
      UpdateStatusSet (JObj [''progress'' \<mapsto> JNum (Fin 95)]), StopServices, Reboot] \<and>
   progress_writes (trace (snd (update sample_parse (sample_env [''.''] (Inr ())) initial_state))) =
     [JNum (Fin 5), JNum (Fin 6), JNum (Fin 95)] \<and>
   get_prop (updateStatus (snd (update sample_parse (sample_env [''.''] (Inr ())) initial_state)))
     ''progress'' = JNum (Fin 95)"
proof -
  let ?env = "sample_env [''.''] (Inr ())"
  have h: "latest_release ?env = Inr \<lparr>version = ''1.1'', releaseNotes = ''notes'',
             updateScript = Some ''https://example.org/update.sh''\<rparr>"
    "updateScript \<lparr>version = ''1.1'', releaseNotes = ''notes'',
             updateScript = Some ''https://example.org/update.sh''\<rparr> = Some ''https://example.org/update.sh''"
    "''https://example.org/update.sh'' \<noteq> []"
    "fetch_text ?env ''https://example.org/update.sh'' = Inr ''mender install''"
    "snd (run_script ?env ''mender install'') = Inr ()"
    "stop_result ?env = Inr ()" "reboot_result ?env = Inr ()"
    by (simp_all add: sample_env_def)
  have a: "js_add 0 1 = 1" using js_add_1_nat[of 0] by simp
  have p: "progress_of_dots 1 = 6" using progress_of_dots_nat[of 1] by (simp add: spec_progress_eq)
  have o: "process_output sample_parse (fst (run_script ?env ''mender install'')) (0, update_start initial_state)
      = handle_line sample_parse ''.'' (0, update_start initial_state)"
    by (simp add: sample_env_def process_output_def handleUpdateScriptOutput_def newline_def)
  let ?st2 = "snd (handle_line sample_parse ''.'' (0, update_start initial_state))"
  have "update sample_parse ?env initial_state =
      (Inr True,
       ?st2\<lparr>updateStatus := (updateStatus ?st2)(''progress'' \<mapsto> JNum (Fin 95)),
           trace := trace ?st2 @ [UpdateStatusSet (JObj [''progress'' \<mapsto> JNum (Fin 95)]),
                                 StopServices, Reboot]\<rparr>)"
    using update_success_order[OF h, of sample_parse initial_state]
    unfolding Let_def o by (rule conjunct1)
  then show ?thesis
    by (simp add: handle_line_dot a p update_start_fields initial_state_def get_prop_def
        start_status_progress)
qed

text \<open>
  A script that prints one status line with progress 100 and exits with success: the
  attempt succeeds, and the status line sets the progress to 100 before the process
  exits, ahead of the 95 of the completion.
\<close>

theorem status_line_writes_100_counterexample:
  \<open>fst (update sample_parse_100 (sample_env [''umbrel-update: {"progress": 100}''] (Inr ()))
          initial_state) = Inr True \<and>
   trace (snd (update sample_parse_100 (sample_env [''umbrel-update: {"progress": 100}''] (Inr ()))
          initial_state)) =
     [SystemStatusSet Updating, UpdateStatusSet start_status,
      UpdateStatusSet (JObj [''progress'' \<mapsto> JNum (Fin 100)]),
      UpdateStatusSet (JObj [''progress'' \<mapsto> JNum (Fin 95)]), StopServices, Reboot] \<and>
   get_prop (updateStatus (snd (process_output sample_parse_100
       [''umbrel-update: {"progress": 100}''] (0, update_start initial_state)))) ''progress''
     = JNum (Fin 100) \<and>
   progress_writes (trace (snd (update sample_parse_100
       (sample_env [''umbrel-update: {"progress": 100}''] (Inr ())) initial_state))) =
     [JNum (Fin 5), JNum (Fin 100), JNum (Fin 95)]\<close>
proof -
  let ?env = \<open>sample_env [''umbrel-update: {"progress": 100}''] (Inr ())\<close>
  have m: \<open>startsWith ''umbrel-update: {"progress": 100}'' marker\<close>
    by (simp add: startsWith_def marker_def)
  have d: \<open>sample_parse_100 (drop (length marker) ''umbrel-update: {"progress": 100}'') =
      Inr (JObj [''progress'' \<mapsto> JNum (Fin 100)])\<close>
    by (simp add: sample_parse_100_def marker_def)
  have o: \<open>process_output sample_parse_100 [''umbrel-update: {"progress": 100}'']
        (0, update_start initial_state) =
      (0, setUpdateStatus (JObj [''progress'' \<mapsto> JNum (Fin 100)]) (update_start initial_state))\<close>
    by (simp add: process_output_def handleUpdateScriptOutput_def newline_def
        handle_line_marker[OF m] d)
  have t: "update_try sample_parse_100 ?env (update_start initial_state) =
      (Inr (), setUpdateStatus (JObj [''progress'' \<mapsto> JNum (Fin 100)]) (update_start initial_state))"
    by (simp add: update_try_def getLatestRelease_def no_script_def sample_env_def
        o[unfolded sample_env_def])
  have f: "stop_result ?env = Inr ()" "reboot_result ?env = Inr ()"
    by (simp_all add: sample_env_def)
  have "update sample_parse_100 ?env initial_state =
      update_finish ?env (setUpdateStatus (JObj [''progress'' \<mapsto> JNum (Fin 100)])
        (update_start initial_state))"
    using t by (simp add: update_def)
  then have u: "update sample_parse_100 ?env initial_state =
      (Inr True,
       initial_state\<lparr>systemStatus := Updating,
         updateStatus := (updateStatus initial_state ++ own_props start_status)
                           (''progress'' \<mapsto> JNum (Fin 95)),
         trace := [SystemStatusSet Updating, UpdateStatusSet start_status,
                   UpdateStatusSet (JObj [''progress'' \<mapsto> JNum (Fin 100)]),
                   UpdateStatusSet (JObj [''progress'' \<mapsto> JNum (Fin 95)]), StopServices, Reboot]\<rparr>)"
    by (simp add: update_finish_ok[OF f] setUpdateStatus_def update_start_def setSystemStatus_def
        initial_state_def)
  have c: \<open>get_prop (updateStatus (snd (process_output sample_parse_100
       [''umbrel-update: {"progress": 100}''] (0, update_start initial_state)))) ''progress''
     = JNum (Fin 100)\<close>
    unfolding o by (simp add: setUpdateStatus_def get_prop_def)
  show ?thesis
    unfolding u using c by (simp add: start_status_progress)
qed

section \<open>Properties of the factory reset and of the hidden service\<close>

text \<open>
  Claim C8. The password is checked first. When the check answers that it is invalid,
  the mutation raises the unauthorized error and the module of the reset is as it was:
  the reset is not started. When it is valid, the reset is started on the data directory
  and the result is the snapshot as it stands when that call returns, which the mutation
  does not await: with the procedure the specification describes, the reset is still
  running when the mutation returns.
\<close>

theorem factoryReset_validates_first:
  "(validatePassword password = Inr False \<longrightarrow>
      factoryReset validatePassword startReset demoState dataDirectory password w =
        (Inl (TRPCError ''UNAUTHORIZED'' ''Invalid password''), w)) \<and>
   (validatePassword password = Inr True \<longrightarrow>
      factoryReset validatePassword startReset demoState dataDirectory password w =
        (Inr (demoState (startReset dataDirectory w)), startReset dataDirectory w)) \<and>
   (validatePassword password = Inr True \<longrightarrow>
      factoryReset validatePassword (startReset_spec publish) resetDemoState dataDirectory password m =
        (Inr (publish (resetDemoState m)),
         m\<lparr>resetDemoState := publish (resetDemoState m),
           running_resets := running_resets m @ [dataDirectory]\<rparr>) \<and>
      dataDirectory \<in> set (running_resets (snd (factoryReset validatePassword (startReset_spec publish)
          resetDemoState dataDirectory password m))))"
  by (simp add: factoryReset_def startReset_spec_def Let_def)

theorem factoryReset_validates_first_witness:
  "sample_validate ''guess'' = Inr False \<and>
   factoryReset sample_validate (startReset_spec id) resetDemoState ''/data'' ''guess''
       \<lparr>resetDemoState = Some (0::nat), running_resets = []\<rparr> =
     (Inl (TRPCError ''UNAUTHORIZED'' ''Invalid password''),
      \<lparr>resetDemoState = Some 0, running_resets = []\<rparr>) \<and>
   sample_validate ''moneyprintergobrrr'' = Inr True \<and>
   factoryReset sample_validate (startReset_spec id) resetDemoState ''/data'' ''moneyprintergobrrr''
       \<lparr>resetDemoState = Some (0::nat), running_resets = []\<rparr> =
     (Inr (Some 0), \<lparr>resetDemoState = Some 0, running_resets = [''/data'']\<rparr>)"
proof -
  have a: "sample_validate ''guess'' = Inr False"
    and b: "sample_validate ''moneyprintergobrrr'' = Inr True"
    by (simp_all add: sample_validate_def)
  show ?thesis
    using a b
      factoryReset_validates_first[of sample_validate "''guess''" "startReset_spec id" resetDemoState
        "''/data''" "\<lparr>resetDemoState = Some (0::nat), running_resets = []\<rparr>" id
        "\<lparr>resetDemoState = Some (0::nat), running_resets = []\<rparr>"]
      factoryReset_validates_first[of sample_validate "''moneyprintergobrrr''" "startReset_spec id"
        resetDemoState "''/data''" "\<lparr>resetDemoState = Some (0::nat), running_resets = []\<rparr>" id
        "\<lparr>resetDemoState = Some (0::nat), running_resets = []\<rparr>"]
    by (simp add: startReset_spec_def)
qed

text \<open>
  Claim C9. Whatever the read of the hostname file gives, the query returns a value and
  raises nothing: the contents of the file when the read succeeds, the empty string when
  it fails, whatever the failure.
\<close>

theorem hiddenService_never_throws:
  "(\<exists>s. hiddenService read_result = Inr s) \<and>
   (\<forall>contents. read_result = Inr contents \<longrightarrow> hiddenService read_result = Inr contents) \<and>
   (\<forall>e. read_result = Inl e \<longrightarrow> hiddenService read_result = Inr [])"
  by (cases read_result) (simp_all add: hiddenService_def)

theorem hiddenService_never_throws_witness:
  "hiddenService (Inl (Error ''ENOENT: no such file or directory'')) = Inr [] \<and>
   hiddenService (Inr ''umbrelxyz.onion'') = Inr ''umbrelxyz.onion''"
  using hiddenService_never_throws[of "Inl (Error ''ENOENT: no such file or directory'')"]
    hiddenService_never_throws[of "Inr ''umbrelxyz.onion''"]
  by simp

end
